theory Spec2Isabelle
  imports Main "HOL-Library.Word"
begin

section \<open>pkg/signal/trap.go: the signal trap\<close>

text \<open>
  \<^verbatim>\<open>Trap(cleanup)\<close> registers a set of signals with the Go runtime and starts a
  goroutine that receives the registered signals from a channel and starts one more
  goroutine, a handler, for every signal it receives. The handlers run concurrently:
  the model is an interleaving of their atomic steps, chosen by the list of events of
  a run. The environment is a map from variable names to values; \<^verbatim>\<open>os.Getenv\<close> reads an
  unset variable as the empty string.
\<close>

datatype signal = SIGHUP | SIGINT | SIGQUIT | SIGTERM

fun signum :: "signal \<Rightarrow> int" where
  "signum SIGHUP = 1"
| "signum SIGINT = 2"
| "signum SIGQUIT = 3"
| "signum SIGTERM = 15"

type_synonym environ = "string \<rightharpoonup> string"

definition Getenv :: "environ \<Rightarrow> string \<Rightarrow> string" where
  "Getenv env k = (case env k of None \<Rightarrow> [] | Some v \<Rightarrow> v)"

text \<open>
  \<^verbatim>\<open>signals := []os.Signal{os.Interrupt, syscall.SIGTERM}\<close>, and
  \<^verbatim>\<open>if os.Getenv("DEBUG") == "" { signals = append(signals, syscall.SIGQUIT) }\<close>.
\<close>

definition trap_signals :: "environ \<Rightarrow> signal list" where
  "trap_signals env =
     (if Getenv env ''DEBUG'' = [] then [SIGINT, SIGTERM] @ [SIGQUIT] else [SIGINT, SIGTERM])"

definition is_interrupt :: "signal \<Rightarrow> bool" where
  "is_interrupt sig = (sig = SIGINT \<or> sig = SIGTERM)"

text \<open>
  Where a handler stands in \<^verbatim>\<open>func(sig os.Signal)\<close>: before the first
  \<^verbatim>\<open>atomic.LoadUint32\<close> (the test \<^verbatim>\<open>< 3\<close>), before \<^verbatim>\<open>atomic.AddUint32\<close>, before the second
  \<^verbatim>\<open>atomic.LoadUint32\<close> (the test \<^verbatim>\<open>== 1\<close>), inside \<^verbatim>\<open>cleanup()\<close>, before
  \<^verbatim>\<open>os.Exit(0)\<close>, before \<^verbatim>\<open>os.Exit(128 + int(sig.(syscall.Signal)))\<close>, or returned.
\<close>

datatype pc = AtLoad1 | AtAdd | AtLoad2 | InCleanup | AtExit0 | AtExit128 | Returned

record handler =
  h_sig :: signal
  h_pc :: pc

text \<open>
  The state of the process as far as the trap is concerned: the counter
  \<^verbatim>\<open>interruptCount\<close> (\<^verbatim>\<open>uint32\<close>), the handlers started so far in the order of their start,
  whether \<^verbatim>\<open>cleanup()\<close> has been called and whether it has returned, the exit status once
  \<^verbatim>\<open>os.Exit\<close> has been called, and the signals that came in without being registered:
  the trap runs no code for those, and what the Go runtime does with them by default
  is not part of the model.
\<close>

record trap_state =
  interruptCount :: "32 word"
  handlers :: "handler list"
  cleanup_called :: bool
  cleanup_returned :: bool
  exited :: "int option"
  unhandled :: "signal list"

definition trap_init :: trap_state where
  "trap_init = \<lparr>interruptCount = 0, handlers = [], cleanup_called = False,
     cleanup_returned = False, exited = None, unhandled = []\<rparr>"

text \<open>
  The \<^verbatim>\<open>switch sig\<close>: the case of \<^verbatim>\<open>os.Interrupt\<close> and \<^verbatim>\<open>syscall.SIGTERM\<close> begins with the
  first load of the counter; the case of \<^verbatim>\<open>syscall.SIGQUIT\<close> is empty, and like any other
  signal it goes straight to the \<^verbatim>\<open>os.Exit\<close> after the switch.
\<close>

definition start_pc :: "signal \<Rightarrow> pc" where
  "start_pc sig = (if sig = SIGINT \<or> sig = SIGTERM then AtLoad1 else AtExit128)"

definition set_pc :: "nat \<Rightarrow> pc \<Rightarrow> trap_state \<Rightarrow> trap_state" where
  "set_pc i p st = st\<lparr>handlers := (handlers st)[i := (handlers st ! i)\<lparr>h_pc := p\<rparr>]\<rparr>"

text \<open>
  One atomic step of the handler number \<open>i\<close>. The first load sends it on to the add
  when the counter is below 3, and otherwise (after the log line of the forced
  shutdown) to the exit with status 128 + signal number. The add increments the counter.
  The second load sends the handler into \<^verbatim>\<open>cleanup()\<close> when it reads 1, and otherwise
  the handler returns. Inside \<^verbatim>\<open>cleanup()\<close> the handler waits for the event
  \<open>CleanupReturns\<close> below. The two exits end the process.
\<close>

definition handler_step :: "nat \<Rightarrow> trap_state \<Rightarrow> trap_state" where
  "handler_step i st =
     (case h_pc (handlers st ! i) of
        AtLoad1 \<Rightarrow> set_pc i (if interruptCount st < 3 then AtAdd else AtExit128) st
      | AtAdd \<Rightarrow> set_pc i AtLoad2 (st\<lparr>interruptCount := interruptCount st + 1\<rparr>)
      | AtLoad2 \<Rightarrow>
          (if interruptCount st = 1 then set_pc i InCleanup (st\<lparr>cleanup_called := True\<rparr>)
           else set_pc i Returned st)
      | InCleanup \<Rightarrow> st
      | AtExit0 \<Rightarrow> st\<lparr>exited := Some 0\<rparr>
      | AtExit128 \<Rightarrow> st\<lparr>exited := Some (128 + signum (h_sig (handlers st ! i)))\<rparr>
      | Returned \<Rightarrow> st)"

text \<open>
  The events of a run: the loop \<^verbatim>\<open>for sig := range c\<close> receives a signal and starts its
  handler (a signal that \<^verbatim>\<open>gosignal.Notify\<close> was not given never reaches the channel);
  the handler number \<open>i\<close> takes its next step; \<^verbatim>\<open>cleanup()\<close> returns to the handler that
  called it, which goes on to \<^verbatim>\<open>os.Exit(0)\<close>. Nothing happens to a process that has
  exited.
\<close>

datatype trap_event = Deliver signal | Step nat | CleanupReturns

definition cleanup_returns :: "trap_state \<Rightarrow> trap_state" where
  "cleanup_returns st =
     st\<lparr>handlers :=
          map (\<lambda>h. if h_pc h = InCleanup then h\<lparr>h_pc := AtExit0\<rparr> else h) (handlers st),
        cleanup_returned :=
          (cleanup_returned st \<or> list_ex (\<lambda>h. h_pc h = InCleanup) (handlers st))\<rparr>"

definition trap_step :: "environ \<Rightarrow> trap_state \<Rightarrow> trap_event \<Rightarrow> trap_state" where
  "trap_step env st ev =
     (if exited st \<noteq> None then st
      else case ev of
        Deliver sig \<Rightarrow>
          (if sig \<in> set (trap_signals env)
           then st\<lparr>handlers := handlers st @ [\<lparr>h_sig = sig, h_pc = start_pc sig\<rparr>]\<rparr>
           else st\<lparr>unhandled := unhandled st @ [sig]\<rparr>)
      | Step i \<Rightarrow> (if i < length (handlers st) then handler_step i st else st)
      | CleanupReturns \<Rightarrow> cleanup_returns st)"

definition trap_run :: "environ \<Rightarrow> trap_event list \<Rightarrow> trap_state" where
  "trap_run env evs = foldl (trap_step env) trap_init evs"

text \<open>
  The run in which the handlers run one at a time: each signal is received and its
  handler, the one number \<open>k\<close>, takes its steps (at most three) before the next signal is
  received, and \<^verbatim>\<open>cleanup()\<close> does not return.
\<close>

fun seq_from :: "nat \<Rightarrow> signal list \<Rightarrow> trap_event list" where
  "seq_from k [] = []"
| "seq_from k (sig # sigs) = [Deliver sig, Step k, Step k, Step k] @ seq_from (Suc k) sigs"

definition one_at_a_time :: "signal list \<Rightarrow> trap_event list" where
  "one_at_a_time sigs = seq_from 0 sigs"

text \<open>The number of SIGINT and SIGTERM signals received in a run.\<close>

fun is_interrupt_received :: "trap_event \<Rightarrow> bool" where
  "is_interrupt_received (Deliver sig) = is_interrupt sig"
| "is_interrupt_received (Step i) = False"
| "is_interrupt_received CleanupReturns = False"

definition interrupts_received :: "trap_event list \<Rightarrow> nat" where
  "interrupts_received evs = length (filter is_interrupt_received evs)"

text \<open>The handler of a SIGQUIT, which stands before its \<^verbatim>\<open>os.Exit(131)\<close>.\<close>

definition quit_handler :: handler where
  "quit_handler = \<lparr>h_sig = SIGQUIT, h_pc = AtExit128\<rparr>"

text \<open>
  The invariant of all runs, for the proofs: the counter is the number of handlers
  that have done their add; a handler of SIGINT or SIGTERM stands before the forced
  exit only when three handlers have done their add; only such a handler has left the
  process with status 128 + the number of SIGINT or SIGTERM.
\<close>

fun past_add :: "pc \<Rightarrow> bool" where
  "past_add AtLoad2 = True"
| "past_add InCleanup = True"
| "past_add AtExit0 = True"
| "past_add Returned = True"
| "past_add AtLoad1 = False"
| "past_add AtAdd = False"
| "past_add AtExit128 = False"

definition added :: "handler \<Rightarrow> bool" where
  "added h = past_add (h_pc h)"

definition forcing :: "handler \<Rightarrow> bool" where
  "forcing h = (is_interrupt (h_sig h) \<and> h_pc h = AtExit128)"

definition well_started :: "handler \<Rightarrow> bool" where
  "well_started h = (is_interrupt (h_sig h) \<or> h_pc h = AtExit128)"

definition trap_inv :: "trap_state \<Rightarrow> bool" where
  "trap_inv st =
     (interruptCount st = of_nat (length (filter added (handlers st)))
      \<and> (list_ex forcing (handlers st) \<longrightarrow> 3 \<le> length (filter added (handlers st)))
      \<and> list_all well_started (handlers st)
      \<and> (\<forall>sig. is_interrupt sig \<and> exited st = Some (128 + signum sig)
            \<longrightarrow> list_ex forcing (handlers st)))"

definition n_interrupt :: "handler list \<Rightarrow> nat" where
  "n_interrupt hs = length (filter (\<lambda>h. is_interrupt (h_sig h)) hs)"

text \<open>
  Two runs in which the handlers do not run one at a time. In the first, two signals
  are received before either handler has taken a step, and the two handlers then take
  their steps in turn. In the second, the first handler has started \<^verbatim>\<open>cleanup()\<close>, three
  more signals are received, and their three handlers take their steps in turn.
\<close>

definition interleaved_first :: "trap_event list" where
  "interleaved_first =
     [Deliver SIGINT, Deliver SIGINT, Step 0, Step 1, Step 0, Step 1, Step 0, Step 1]"

definition interleaved_later :: "trap_event list" where
  "interleaved_later =
     one_at_a_time [SIGINT] @
     [Deliver SIGTERM, Deliver SIGTERM, Deliver SIGTERM,
      Step 1, Step 2, Step 3, Step 1, Step 2, Step 3, Step 1, Step 2, Step 3]"

section \<open>daemon/networkdriver/bridge/driver.go: the per-container handlers\<close>

text \<open>
  An IP address is kept in its textual form. \<^verbatim>\<open>net.Addr\<close> is an interface: a value
  of it is nil, a \<^verbatim>\<open>*net.TCPAddr\<close> or a \<^verbatim>\<open>*net.UDPAddr\<close>.
\<close>

type_synonym IP = string

datatype Addr = NilAddr | TCPAddr IP int | UDPAddr IP int

record networkInterface =
  IP :: IP
  PortMappings :: "Addr list"

text \<open>
  The packages \<^verbatim>\<open>portmapper\<close>, \<^verbatim>\<open>portallocator\<close> and \<^verbatim>\<open>ipallocator\<close> are not part of
  the sources at hand. Every call the driver makes to them is recorded, in order, and
  what a call returns is given by a function of the calls made before it, which the
  handlers take as a parameter: any deterministic implementation is covered.
\<close>

datatype extcall =
    CallMap Addr "IP option" int
  | CallUnmap Addr
  | CallReleaseIP string IP

datatype map_error = ErrPortAlreadyAllocated string | OtherMapError string

record services =
  ParseIP :: "string \<Rightarrow> IP option"
  portmapper_Map :: "extcall list \<Rightarrow> Addr \<Rightarrow> IP option \<Rightarrow> int \<Rightarrow> map_error + Addr"
  portmapper_Unmap :: "extcall list \<Rightarrow> Addr \<Rightarrow> string option"
  ipallocator_ReleaseIP :: "extcall list \<Rightarrow> string \<Rightarrow> IP \<Rightarrow> string option"

datatype logline =
    UnableToUnmapPort Addr string
  | UnableToReleaseIp string
  | FailedToBind string Addr
  | FailedToBindTryingAnother string Addr
  | UnexpectedMapError string

text \<open>
  The package-level variables of the driver: \<^verbatim>\<open>currentInterfaces\<close> (a map from container
  id to a pointer to its record; nil when the id is absent), \<^verbatim>\<open>bridgeIface\<close>,
  \<^verbatim>\<open>bridgeNetwork\<close> and \<^verbatim>\<open>defaultBindingIP\<close>, with the calls made to the other packages
  and the lines logged so far.
\<close>

record driver =
  currentInterfaces :: "string \<rightharpoonup> networkInterface"
  bridgeIface :: string
  bridgeNetwork :: string
  defaultBindingIP :: "IP option"
  calls :: "extcall list"
  logged :: "logline list"

definition ifaces_Get :: "driver \<Rightarrow> string \<Rightarrow> networkInterface option" where
  "ifaces_Get d key = currentInterfaces d key"

definition ifaces_Set :: "string \<Rightarrow> networkInterface \<Rightarrow> driver \<Rightarrow> driver" where
  "ifaces_Set key n d = d\<lparr>currentInterfaces := (currentInterfaces d)(key \<mapsto> n)\<rparr>"

definition MaxAllocatedPortAttempts :: nat where
  "MaxAllocatedPortAttempts = 10"

text \<open>
  A handler returns \<^verbatim>\<open>engine.StatusOK\<close>, or an error status with the message of
  \<^verbatim>\<open>job.Error\<close>/\<^verbatim>\<open>job.Errorf\<close>, or it panics.
\<close>

datatype job_error =
    NoNetworkInformation string
  | UnsupportedAddressType string
  | MapFailed map_error
  | StdoutWriteFailed

datatype status = StatusOK | StatusErr job_error

datatype panic = IndexOutOfRange | NilPointerDereference

text \<open>
  \<^verbatim>\<open>Release\<close>: the body of the loop over \<^verbatim>\<open>containerInterface.PortMappings\<close> (\<open>m\<close> is
  the loop variable \<^verbatim>\<open>nat\<close>), then the handler (\<open>cid\<close> is \<^verbatim>\<open>id\<close>). An error of \<^verbatim>\<open>Unmap\<close> or of \<^verbatim>\<open>ReleaseIP\<close> is logged and nothing else.
  \<^verbatim>\<open>job.Args[0]\<close> panics on an empty argument list.
\<close>

definition unmap_one :: "services \<Rightarrow> driver \<Rightarrow> Addr \<Rightarrow> driver" where
  "unmap_one sv d m =
     (let r = portmapper_Unmap sv (calls d) m;
          d1 = d\<lparr>calls := calls d @ [CallUnmap m]\<rparr>
      in case r of None \<Rightarrow> d1
         | Some err \<Rightarrow> d1\<lparr>logged := logged d1 @ [UnableToUnmapPort m err]\<rparr>)"

definition release_ip :: "services \<Rightarrow> IP \<Rightarrow> driver \<Rightarrow> driver" where
  "release_ip sv ip d =
     (let r = ipallocator_ReleaseIP sv (calls d) (bridgeNetwork d) ip;
          d1 = d\<lparr>calls := calls d @ [CallReleaseIP (bridgeNetwork d) ip]\<rparr>
      in case r of None \<Rightarrow> d1
         | Some err \<Rightarrow> d1\<lparr>logged := logged d1 @ [UnableToReleaseIp err]\<rparr>)"

definition Release :: "services \<Rightarrow> string list \<Rightarrow> driver \<Rightarrow> panic + status \<times> driver" where
  "Release sv args d =
     (case args of
        [] \<Rightarrow> Inl IndexOutOfRange
      | cid # _ \<Rightarrow>
          (case ifaces_Get d cid of
             None \<Rightarrow> Inr (StatusErr (NoNetworkInformation cid), d)
           | Some containerInterface \<Rightarrow>
               Inr (StatusOK,
                    release_ip sv (IP containerInterface)
                      (foldl (unmap_one sv) d (PortMappings containerInterface)))))"

text \<open>
  \<^verbatim>\<open>AllocatePort\<close>. The job is given by what the handler reads from it: its arguments,
  the values of \<^verbatim>\<open>HostIP\<close>, \<^verbatim>\<open>HostPort\<close>, \<^verbatim>\<open>ContainerPort\<close> and \<^verbatim>\<open>Proto\<close>, and whether a
  write to its standard output succeeds.
\<close>

record port_job =
  Args :: "string list"
  HostIP :: string
  HostPort :: int
  ContainerPort :: int
  Proto :: string
  StdoutOk :: bool

datatype outval = OutStr string | OutInt int

text \<open>
  The retry loop \<^verbatim>\<open>for i := 0; i < MaxAllocatedPortAttempts; i++\<close>, by the number of
  iterations left; \<open>host\<close> and \<open>err\<close> are the variables of the same names (\<open>None\<close> for a
  nil error). An iteration calls \<^verbatim>\<open>portmapper.Map\<close> once. It leaves the loop on
  success, on an \<^verbatim>\<open>ErrPortAlreadyAllocated\<close> for an explicitly chosen port, and on any
  other error; it goes round again on an \<^verbatim>\<open>ErrPortAlreadyAllocated\<close> when the port was
  chosen automatically (\<^verbatim>\<open>hostPort == 0\<close>).
\<close>

fun map_loop ::
  "services \<Rightarrow> Addr \<Rightarrow> IP option \<Rightarrow> int \<Rightarrow> nat \<Rightarrow> Addr \<times> map_error option \<Rightarrow> driver
   \<Rightarrow> (Addr \<times> map_error option) \<times> driver" where
  "map_loop sv container ip hostPort 0 he d = (he, d)"
| "map_loop sv container ip hostPort (Suc n) he d =
     (let r = portmapper_Map sv (calls d) container ip hostPort;
          d1 = d\<lparr>calls := calls d @ [CallMap container ip hostPort]\<rparr>
      in case r of
           Inr host \<Rightarrow> ((host, None), d1)
         | Inl (ErrPortAlreadyAllocated ipport) \<Rightarrow>
             (if hostPort \<noteq> 0
              then ((NilAddr, Some (ErrPortAlreadyAllocated ipport)),
                    d1\<lparr>logged := logged d1 @ [FailedToBind ipport container]\<rparr>)
              else map_loop sv container ip hostPort n
                     (NilAddr, Some (ErrPortAlreadyAllocated ipport))
                     (d1\<lparr>logged := logged d1 @ [FailedToBindTryingAnother ipport container]\<rparr>))
         | Inl (OtherMapError msg) \<Rightarrow>
             ((NilAddr, Some (OtherMapError msg)),
              d1\<lparr>logged := logged d1 @ [UnexpectedMapError msg]\<rparr>))"

definition host_out :: "Addr \<Rightarrow> (string \<times> outval) list" where
  "host_out host =
     (case host of
        TCPAddr hip hport \<Rightarrow> [(''HostIP'', OutStr hip), (''HostPort'', OutInt hport)]
      | UDPAddr hip hport \<Rightarrow> [(''HostIP'', OutStr hip), (''HostPort'', OutInt hport)]
      | NilAddr \<Rightarrow> [])"

text \<open>
  The part of \<^verbatim>\<open>AllocatePort\<close> after the container address is built: the loop, the
  error return, the append to the record that the container id \<open>cid\<close> (\<^verbatim>\<open>id\<close> in the
  source) points to, and the output.
\<close>

definition allocate_mapped ::
  "services \<Rightarrow> port_job \<Rightarrow> string \<Rightarrow> networkInterface \<Rightarrow> IP option \<Rightarrow> Addr \<Rightarrow> driver
   \<Rightarrow> status \<times> driver \<times> (string \<times> outval) list" where
  "allocate_mapped sv job cid network ip container d =
     (case map_loop sv container ip (HostPort job) MaxAllocatedPortAttempts (NilAddr, None) d of
        ((host, Some err), d1) \<Rightarrow> (StatusErr (MapFailed err), d1, [])
      | ((host, None), d1) \<Rightarrow>
          (let d2 = ifaces_Set cid
                      (network\<lparr>PortMappings := PortMappings network @ [host]\<rparr>) d1
           in if StdoutOk job then (StatusOK, d2, host_out host)
              else (StatusErr StdoutWriteFailed, d2, [])))"

definition AllocatePort ::
  "services \<Rightarrow> port_job \<Rightarrow> driver \<Rightarrow> panic + status \<times> driver \<times> (string \<times> outval) list" where
  "AllocatePort sv job d =
     (case Args job of
        [] \<Rightarrow> Inl IndexOutOfRange
      | cid # _ \<Rightarrow>
          (let network = ifaces_Get d cid;
               ip = (if HostIP job \<noteq> [] then ParseIP sv (HostIP job) else defaultBindingIP d)
           in if Proto job = ''tcp'' then
                (case network of
                   None \<Rightarrow> Inl NilPointerDereference
                 | Some nw \<Rightarrow>
                     Inr (allocate_mapped sv job cid nw ip
                            (TCPAddr (IP nw) (ContainerPort job)) d))
              else if Proto job = ''udp'' then
                (case network of
                   None \<Rightarrow> Inl NilPointerDereference
                 | Some nw \<Rightarrow>
                     Inr (allocate_mapped sv job cid nw ip
                            (UDPAddr (IP nw) (ContainerPort job)) d))
              else Inr (StatusErr (UnsupportedAddressType (Proto job)), d, [])))"

text \<open>The number of calls to \<^verbatim>\<open>portmapper.Map\<close> among the recorded calls.\<close>

fun is_map_call :: "extcall \<Rightarrow> bool" where
  "is_map_call (CallMap c i p) = True"
| "is_map_call (CallUnmap a) = False"
| "is_map_call (CallReleaseIP n i) = False"

definition map_calls :: "driver \<Rightarrow> nat" where
  "map_calls d = length (filter is_map_call (calls d))"

text \<open>
  What \<^verbatim>\<open>Release\<close> asks of the other packages for the record \<open>ci\<close>: one \<^verbatim>\<open>Unmap\<close> for
  each port mapping, in order, then one \<^verbatim>\<open>ReleaseIP\<close>.
\<close>

definition release_calls :: "driver \<Rightarrow> networkInterface \<Rightarrow> extcall list" where
  "release_calls d ci = map CallUnmap (PortMappings ci) @ [CallReleaseIP (bridgeNetwork d) (IP ci)]"

text \<open>
  \<open>attempt sv h c ip hp j\<close> is what \<^verbatim>\<open>portmapper.Map\<close> returns when it is called after
  the calls \<open>h\<close> and \<open>j\<close> earlier calls of \<^verbatim>\<open>Map\<close> with the same arguments: the result of
  the iteration \<^verbatim>\<open>i = j\<close> of the retry loop.
\<close>

definition is_allocated_err :: "map_error + Addr \<Rightarrow> bool" where
  "is_allocated_err r = (case r of Inl (ErrPortAlreadyAllocated x) \<Rightarrow> True | _ \<Rightarrow> False)"

definition attempt ::
  "services \<Rightarrow> extcall list \<Rightarrow> Addr \<Rightarrow> IP option \<Rightarrow> int \<Rightarrow> nat \<Rightarrow> map_error + Addr" where
  "attempt sv h c ip hp j = portmapper_Map sv (h @ replicate j (CallMap c ip hp)) c ip hp"

text \<open>
  Example services, for concrete runs: \<^verbatim>\<open>Map\<close> reports the port as allocated until \<open>k\<close>
  calls of \<^verbatim>\<open>Map\<close> have been made and succeeds afterwards (on port 49153 when none was
  requested); \<^verbatim>\<open>Unmap\<close> fails on an address that was unmapped before. And an example
  state of the driver, with a record for the container \<open>c1\<close> only.
\<close>

definition example_services :: "nat \<Rightarrow> services" where
  "example_services k =
     \<lparr>ParseIP = (\<lambda>s. if s = [] then None else Some s),
      portmapper_Map = (\<lambda>h c ip p.
         if length (filter is_map_call h) < k then Inl (ErrPortAlreadyAllocated ''0.0.0.0:49153'')
         else Inr (case c of
                     UDPAddr cip cport \<Rightarrow> UDPAddr ''0.0.0.0'' (if p = 0 then 49153 else p)
                   | TCPAddr cip cport \<Rightarrow> TCPAddr ''0.0.0.0'' (if p = 0 then 49153 else p)
                   | NilAddr \<Rightarrow> NilAddr)),
      portmapper_Unmap = (\<lambda>h a. if CallUnmap a \<in> set h then Some ''port is not mapped'' else None),
      ipallocator_ReleaseIP = (\<lambda>h n i. None)\<rparr>"

definition example_driver :: driver where
  "example_driver =
     \<lparr>currentInterfaces =
        [''c1'' \<mapsto> \<lparr>IP = ''172.17.0.2'', PortMappings = [TCPAddr ''0.0.0.0'' 8080]\<rparr>],
      bridgeIface = ''docker0'', bridgeNetwork = ''172.17.42.1/16'',
      defaultBindingIP = Some ''0.0.0.0'', calls = [], logged = []\<rparr>"

text \<open>An example job for \<^verbatim>\<open>allocate_port\<close>: container \<open>c1\<close>, port 80/tcp, host port \<open>hp\<close>.\<close>

definition example_job :: "int \<Rightarrow> port_job" where
  "example_job hp = \<lparr>Args = [''c1''], HostIP = [], HostPort = hp, ContainerPort = 80,
     Proto = ''tcp'', StdoutOk = True\<rparr>"

section \<open>daemon/networkdriver/bridge/driver.go: creating the bridge\<close>

text \<open>The candidate addresses of the bridge, in the order of the source.\<close>

definition addrs :: "string list" where
  "addrs =
     [''172.17.42.1/16'', ''10.0.42.1/16'', ''10.1.42.1/16'', ''10.42.42.1/16'',
      ''172.16.42.1/24'', ''172.16.43.1/24'', ''172.16.44.1/24'', ''10.0.42.1/24'',
      ''10.0.43.1/24'', ''192.168.42.1/24'', ''192.168.43.1/24'', ''192.168.44.1/24'']"

text \<open>
  The host as \<^verbatim>\<open>createBridge\<close> sees and changes it: the nameservers of
  \<^verbatim>\<open>/etc/resolv.conf\<close> in CIDR form (\<open>None\<close> when \<^verbatim>\<open>resolvconf.Get\<close> returns nil), and the
  network links by name, each with its addresses and whether it is up.
\<close>

record link =
  link_addrs :: "string list"
  link_up :: bool

record host =
  resolvConf :: "string list option"
  links :: "string \<rightharpoonup> link"

text \<open>
  The functions \<^verbatim>\<open>createBridge\<close> calls that are not part of the sources at hand are
  parameters: \<^verbatim>\<open>net.ParseCIDR\<close> (the address and the network of a CIDR string, \<open>None\<close>
  for an error), \<^verbatim>\<open>networkdriver.CheckNameserverOverlaps\<close> and
  \<^verbatim>\<open>networkdriver.CheckRouteOverlaps\<close> (\<open>True\<close> when they return an error), and whether
  \<^verbatim>\<open>netlink.CreateBridge\<close>, \<^verbatim>\<open>net.InterfaceByName\<close>, \<^verbatim>\<open>netlink.NetworkLinkAddIp\<close> and
  \<^verbatim>\<open>netlink.NetworkLinkUp\<close> fail (\<open>Some\<close> error message).
\<close>

record netlib =
  ParseCIDR :: "string \<Rightarrow> (IP \<times> string) option"
  CheckNameserverOverlaps :: "string list \<Rightarrow> string \<Rightarrow> bool"
  CheckRouteOverlaps :: "string \<Rightarrow> bool"
  CreateBridge_err :: "string \<Rightarrow> string option"
  InterfaceByName_err :: "string \<Rightarrow> string option"
  NetworkLinkAddIp_err :: "string \<Rightarrow> string \<Rightarrow> string option"
  NetworkLinkUp_err :: "string \<Rightarrow> string option"

datatype bridge_error =
    ParseCIDRError string
  | NoFreeRange string
  | CreateBridgeIfaceError string
  | InterfaceByNameError string
  | UnableToStartBridge string

text \<open>
  The loop \<^verbatim>\<open>for _, addr := range addrs\<close> over the candidates that are left. It returns
  the value of \<^verbatim>\<open>ifaceAddr\<close> after the loop (the empty string when no candidate was
  taken), or the error of \<^verbatim>\<open>net.ParseCIDR\<close>.
\<close>

fun select_addr :: "netlib \<Rightarrow> string list \<Rightarrow> string list \<Rightarrow> bridge_error + string" where
  "select_addr nl nameservers [] = Inr []"
| "select_addr nl nameservers (addr # rest) =
     (case ParseCIDR nl addr of
        None \<Rightarrow> Inl (ParseCIDRError addr)
      | Some (ip, dockerNetwork) \<Rightarrow>
          (if \<not> CheckNameserverOverlaps nl nameservers dockerNetwork then
             (if \<not> CheckRouteOverlaps nl dockerNetwork then Inr addr
              else select_addr nl nameservers rest)
           else select_addr nl nameservers rest))"

text \<open>
  The second half of \<^verbatim>\<open>createBridge\<close>, from \<^verbatim>\<open>createBridgeIface\<close> on. The result of
  \<^verbatim>\<open>netlink.NetworkLinkAddIp\<close> is not looked at: the condition that follows the call
  tests the \<open>err\<close> of \<^verbatim>\<open>net.ParseCIDR\<close>, which is nil there.
\<close>

definition configure_bridge ::
  "netlib \<Rightarrow> string \<Rightarrow> string \<Rightarrow> host \<Rightarrow> bridge_error option \<times> host" where
  "configure_bridge nl bridge ifaceAddr h =
     (case CreateBridge_err nl bridge of
        Some e \<Rightarrow> (Some (CreateBridgeIfaceError e), h)
      | None \<Rightarrow>
          (let h1 = h\<lparr>links := (links h)(bridge \<mapsto> \<lparr>link_addrs = [], link_up = False\<rparr>)\<rparr>
           in case InterfaceByName_err nl bridge of
                Some e \<Rightarrow> (Some (InterfaceByNameError e), h1)
              | None \<Rightarrow>
                  (case ParseCIDR nl ifaceAddr of
                     None \<Rightarrow> (Some (ParseCIDRError ifaceAddr), h1)
                   | Some (ipAddr, ipNet) \<Rightarrow>
                       (let iface = \<lparr>link_addrs = [], link_up = False\<rparr>;
                            iface2 = (case NetworkLinkAddIp_err nl bridge ifaceAddr of
                                        None \<Rightarrow> iface\<lparr>link_addrs := link_addrs iface @ [ifaceAddr]\<rparr>
                                      | Some e \<Rightarrow> iface);
                            h2 = h1\<lparr>links := (links h1)(bridge \<mapsto> iface2)\<rparr>
                        in case NetworkLinkUp_err nl bridge of
                             Some e \<Rightarrow> (Some (UnableToStartBridge e), h2)
                           | None \<Rightarrow>
                               (None, h2\<lparr>links := (links h2)(bridge \<mapsto> iface2\<lparr>link_up := True\<rparr>)\<rparr>)))))"

definition createBridge ::
  "netlib \<Rightarrow> string \<Rightarrow> string \<Rightarrow> host \<Rightarrow> bridge_error option \<times> host" where
  "createBridge nl bridge bridgeIP h =
     (let nameservers = (case resolvConf h of None \<Rightarrow> [] | Some ns \<Rightarrow> [] @ ns);
          sel = (if length bridgeIP \<noteq> 0 then
                   (case ParseCIDR nl bridgeIP of
                      None \<Rightarrow> Inl (ParseCIDRError bridgeIP)
                    | Some p \<Rightarrow> Inr bridgeIP)
                 else select_addr nl nameservers addrs)
      in case sel of
           Inl e \<Rightarrow> (Some e, h)
         | Inr ifaceAddr \<Rightarrow>
             (if ifaceAddr = [] then (Some (NoFreeRange bridge), h)
              else configure_bridge nl bridge ifaceAddr h))"

text \<open>
  A candidate is free when neither check returns an error for its network.
\<close>

definition free_range :: "netlib \<Rightarrow> string list \<Rightarrow> string \<Rightarrow> bool" where
  "free_range nl nameservers addr =
     (case ParseCIDR nl addr of
        None \<Rightarrow> False
      | Some (ip, dockerNetwork) \<Rightarrow>
          \<not> CheckNameserverOverlaps nl nameservers dockerNetwork
          \<and> \<not> CheckRouteOverlaps nl dockerNetwork)"

definition host_nameservers :: "host \<Rightarrow> string list" where
  "host_nameservers h = (case resolvConf h of None \<Rightarrow> [] | Some ns \<Rightarrow> ns)"

text \<open>
  An example library and host, for concrete runs: every non-empty string parses, a
  network overlaps a nameserver when their first six characters agree, and it overlaps
  a route when \<open>busy\<close> is set or it starts with \<open>10.0\<close>; the netlink calls succeed. The
  host has the nameserver 172.17.0.5 and no link.
\<close>

definition example_netlib :: "bool \<Rightarrow> netlib" where
  "example_netlib busy =
     \<lparr>ParseCIDR = (\<lambda>s. if s = [] then None else Some (takeWhile (\<lambda>c. c \<noteq> CHR ''/'') s, s)),
      CheckNameserverOverlaps = (\<lambda>ns net. list_ex (\<lambda>n. take 6 n = take 6 net) ns),
      CheckRouteOverlaps = (\<lambda>net. busy \<or> take 4 net = ''10.0''),
      CreateBridge_err = (\<lambda>name. None),
      InterfaceByName_err = (\<lambda>name. None),
      NetworkLinkAddIp_err = (\<lambda>name a. None),
      NetworkLinkUp_err = (\<lambda>name. None)\<rparr>"

definition example_host :: host where
  "example_host = \<lparr>resolvConf = Some [''172.17.0.5/32''], links = Map.empty\<rparr>"

section \<open>daemon/networkdriver/bridge/driver.go: the iptables rules\<close>

text \<open>
  The package \<^verbatim>\<open>pkg/iptables\<close> is not part of the sources at hand. The driver takes
  the four functions it calls as parameters, over any type \<open>'s\<close> of rulesets:
  \<^verbatim>\<open>iptables.Exists\<close>; \<^verbatim>\<open>iptables.Raw\<close>, which returns the output of the command and
  its error (\<open>None\<close> for nil) and changes the ruleset; \<^verbatim>\<open>iptables.RemoveExistingChain\<close>,
  which returns an error or nil; and \<^verbatim>\<open>iptables.NewChain\<close>, which returns an error or the
  new chain, of which the driver only keeps the pointer.
\<close>

record chain =
  chain_Name :: string
  chain_Bridge :: string

record 's iptables =
  ipt_Exists :: "string list \<Rightarrow> 's \<Rightarrow> bool"
  ipt_Raw :: "string list \<Rightarrow> 's \<Rightarrow> (string \<times> string option) \<times> 's"
  ipt_RemoveExistingChain :: "string \<Rightarrow> 's \<Rightarrow> string option \<times> 's"
  ipt_NewChain :: "string \<Rightarrow> string \<Rightarrow> 's \<Rightarrow> (string + chain) \<times> 's"

datatype ipt_error =
    UnableToEnableNAT string
  | ErrorPostrouting string
  | UnableToPreventICC string
  | ErrorDisablingICC string
  | UnableToAllowICC string
  | ErrorEnablingICC string
  | UnableToAllowOutgoing string
  | ErrorAllowOutgoing string
  | UnableToAllowIncoming string
  | ErrorAllowIncoming string

text \<open>
  The pattern the source writes out five times:
  \<^verbatim>\<open>if !iptables.Exists(args...) { if output, err := iptables.Raw(append([]string{"-I"}, args...)...); err != nil { return e1 } else if len(output) != 0 { return e2 } }\<close>.
\<close>

definition insert_unless_exists ::
  "'s iptables \<Rightarrow> string list \<Rightarrow> (string \<Rightarrow> ipt_error) \<Rightarrow> (string \<Rightarrow> ipt_error) \<Rightarrow> 's
   \<Rightarrow> ipt_error option \<times> 's" where
  "insert_unless_exists ipt args e1 e2 s =
     (if \<not> ipt_Exists ipt args s then
        (case ipt_Raw ipt (''-I'' # args) s of
           ((output, Some err), s1) \<Rightarrow> (Some (e1 err), s1)
         | ((output, None), s1) \<Rightarrow>
             (if length output \<noteq> 0 then (Some (e2 output), s1) else (None, s1)))
      else (None, s))"

definition natArgs :: "string \<Rightarrow> string \<Rightarrow> string list" where
  "natArgs bridge addr =
     [''POSTROUTING'', ''-t'', ''nat'', ''-s'', addr, ''!'', ''-o'', bridge, ''-j'', ''MASQUERADE'']"

definition acceptArgs :: "string \<Rightarrow> string list" where
  "acceptArgs bridge = [''FORWARD'', ''-i'', bridge, ''-o'', bridge, ''-j''] @ [''ACCEPT'']"

definition dropArgs :: "string \<Rightarrow> string list" where
  "dropArgs bridge = [''FORWARD'', ''-i'', bridge, ''-o'', bridge, ''-j''] @ [''DROP'']"

definition outgoingArgs :: "string \<Rightarrow> string list" where
  "outgoingArgs bridge = [''FORWARD'', ''-i'', bridge, ''!'', ''-o'', bridge, ''-j'', ''ACCEPT'']"

definition existingArgs :: "string \<Rightarrow> string list" where
  "existingArgs bridge =
     [''FORWARD'', ''-o'', bridge, ''-m'', ''conntrack'', ''--ctstate'', ''RELATED,ESTABLISHED'',
      ''-j'', ''ACCEPT'']"

text \<open>
  \<^verbatim>\<open>setupIPTables(addr, icc)\<close>, with the package variable \<^verbatim>\<open>bridgeIface\<close> as \<open>bridge\<close>. The
  result of the \<^verbatim>\<open>-D\<close> command is dropped, as in the source.
\<close>

definition setupIPTables ::
  "'s iptables \<Rightarrow> string \<Rightarrow> string \<Rightarrow> bool \<Rightarrow> 's \<Rightarrow> ipt_error option \<times> 's" where
  "setupIPTables ipt bridge addr icc s =
     (case insert_unless_exists ipt (natArgs bridge addr) UnableToEnableNAT ErrorPostrouting s of
        (Some e, s1) \<Rightarrow> (Some e, s1)
      | (None, s1) \<Rightarrow>
          (case (if \<not> icc then
                   insert_unless_exists ipt (dropArgs bridge) UnableToPreventICC ErrorDisablingICC
                     (snd (ipt_Raw ipt (''-D'' # acceptArgs bridge) s1))
                 else
                   insert_unless_exists ipt (acceptArgs bridge) UnableToAllowICC ErrorEnablingICC
                     (snd (ipt_Raw ipt (''-D'' # dropArgs bridge) s1))) of
             (Some e, s2) \<Rightarrow> (Some e, s2)
           | (None, s2) \<Rightarrow>
               (case insert_unless_exists ipt (outgoingArgs bridge)
                       UnableToAllowOutgoing ErrorAllowOutgoing s2 of
                  (Some e, s3) \<Rightarrow> (Some e, s3)
                | (None, s3) \<Rightarrow>
                    insert_unless_exists ipt (existingArgs bridge)
                      UnableToAllowIncoming ErrorAllowIncoming s3)))"

text \<open>
  Modelled from the spec: the package \<^verbatim>\<open>pkg/iptables\<close>, which runs the \<^verbatim>\<open>iptables\<close>
  command, is missing. The ruleset is the list of the rules in force, each rule the
  argument list that was inserted (the chain first), so that duplicates can be told,
  with the list of the chains that were created. The command \<^verbatim>\<open>-I\<close> inserts the rule
  at the head; \<^verbatim>\<open>-D\<close> deletes one rule equal to the given one, and fails when there is
  none; \<^verbatim>\<open>Exists\<close> says whether such a rule is in force. Commands succeed silently; no
  other command is used by \<^verbatim>\<open>setupIPTables\<close>. Of the \<^verbatim>\<open>DOCKER\<close> chain the spec has that
  it is created fresh, any existing one being removed, and that it is referenced by a
  jump from \<^verbatim>\<open>FORWARD\<close>: \<^verbatim>\<open>RemoveExistingChain\<close> removes the chain, the rules in it and
  the rules that jump to it, and always succeeds; \<^verbatim>\<open>NewChain\<close> fails when the chain is
  there, and otherwise creates it and inserts the jump to it at the head.
\<close>

record ruleset =
  rs_rules :: "string list list"
  rs_chains :: "string list"

definition in_chain :: "string \<Rightarrow> string list \<Rightarrow> bool" where
  "in_chain name r = (case r of [] \<Rightarrow> False | c # args \<Rightarrow> c = name)"

definition jumps_to :: "string \<Rightarrow> string list \<Rightarrow> bool" where
  "jumps_to name r = (2 \<le> length r \<and> drop (length r - 2) r = [''-j'', name])"

definition of_chain :: "string \<Rightarrow> string list \<Rightarrow> bool" where
  "of_chain name r = (in_chain name r \<or> jumps_to name r)"

definition jump_rule :: "string \<Rightarrow> string list" where
  "jump_rule name = [''FORWARD'', ''-j'', name]"

definition list_iptables :: "ruleset iptables" where
  "list_iptables =
     \<lparr>ipt_Exists = (\<lambda>args rs. args \<in> set (rs_rules rs)),
      ipt_Raw = (\<lambda>cmd rs.
        case cmd of
          [] \<Rightarrow> (([], Some ''no command specified''), rs)
        | action # args \<Rightarrow>
            (if action = ''-I'' then (([], None), rs\<lparr>rs_rules := args # rs_rules rs\<rparr>)
             else if action = ''-D'' then
               (if args \<in> set (rs_rules rs)
                then (([], None), rs\<lparr>rs_rules := remove1 args (rs_rules rs)\<rparr>)
                else (([], Some ''Bad rule (does a matching rule exist in that chain?)''), rs))
             else (([], Some ''unsupported command''), rs))),
      ipt_RemoveExistingChain = (\<lambda>name rs.
        (None, rs\<lparr>rs_rules := filter (\<lambda>r. \<not> of_chain name r) (rs_rules rs),
                  rs_chains := removeAll name (rs_chains rs)\<rparr>)),
      ipt_NewChain = (\<lambda>name bridge rs.
        if name \<in> set (rs_chains rs) then (Inl ''Chain already exists.'', rs)
        else (Inr \<lparr>chain_Name = name, chain_Bridge = bridge\<rparr>,
              rs\<lparr>rs_rules := jump_rule name # rs_rules rs,
                 rs_chains := name # rs_chains rs\<rparr>))\<rparr>"

text \<open>The rule of the other polarity than the one \<open>icc\<close> asks for.\<close>

definition opposite_rule :: "string \<Rightarrow> bool \<Rightarrow> string list" where
  "opposite_rule bridge icc = (if icc then dropArgs bridge else acceptArgs bridge)"

definition own_rule :: "string \<Rightarrow> bool \<Rightarrow> string list" where
  "own_rule bridge icc = (if icc then acceptArgs bridge else dropArgs bridge)"

text \<open>
  What \<^verbatim>\<open>setupIPTables\<close> makes of a ruleset under \<open>list_iptables\<close>: a rule is put at the
  head unless it is there already, and one copy of the rule of the other polarity is
  deleted before the own inter-container rule is ensured.
\<close>

definition ensure_rule :: "string list \<Rightarrow> string list list \<Rightarrow> string list list" where
  "ensure_rule r rs = (if r \<in> set rs then rs else r # rs)"

definition rules_after :: "string \<Rightarrow> string \<Rightarrow> bool \<Rightarrow> string list list \<Rightarrow> string list list" where
  "rules_after bridge addr icc rs =
     ensure_rule (existingArgs bridge)
       (ensure_rule (outgoingArgs bridge)
         (ensure_rule (own_rule bridge icc)
           (remove1 (opposite_rule bridge icc)
             (ensure_rule (natArgs bridge addr) rs))))"

section \<open>daemon/networkdriver/bridge/driver.go: InitDriver\<close>

text \<open>
  The job of \<^verbatim>\<open>init_networkdriver\<close>, with the six variables of its environment that
  \<^verbatim>\<open>InitDriver\<close> reads.
\<close>

record init_job =
  job_EnableIptables :: bool
  job_InterContainerCommunication :: bool
  job_EnableIpForward :: bool
  job_BridgeIP :: string
  job_DefaultBindingIP :: string
  job_BridgeIface :: string

definition DefaultNetworkBridge :: string where
  "DefaultNetworkBridge = ''docker0''"

text \<open>
  A \<^verbatim>\<open>*net.IPNet\<close>, as \<^verbatim>\<open>networkdriver.GetIfaceAddr\<close> returns it: its field \<^verbatim>\<open>IP\<close> and the
  text that \<^verbatim>\<open>String()\<close> gives (the address and the prefix length).
\<close>

type_synonym IPNet = "IP \<times> string"

datatype init_error =
    GetIfaceAddrError string
  | CreateBridgeError bridge_error
  | ParseBridgeIPError string
  | BridgeIPMismatch IP IP
  | IptablesError ipt_error
  | ChainError string
  | RegisterError string

datatype init_status = InitOK | InitErr init_error

datatype init_logline =
    BridgeNotFound string
  | CreatingNewBridge string
  | GettingIfaceAddr
  | UnableToEnableForwarding string

text \<open>
  What \<^verbatim>\<open>InitDriver\<close> uses and the sources at hand do not hold, as parameters, with the
  libraries of \<^verbatim>\<open>createBridge\<close>, of \<^verbatim>\<open>setupIPTables\<close> and of the handlers:
  \<^verbatim>\<open>networkdriver.GetIfaceAddr\<close> (an error message or the address of the interface on
  the host as it is), \<^verbatim>\<open>net.IP.Equal\<close>, whether \<^verbatim>\<open>ioutil.WriteFile\<close> fails for a path, and
  of the engine, of any type \<open>'e\<close>, \<^verbatim>\<open>Register\<close> (an error message or the engine with the
  handler registered) and \<^verbatim>\<open>Hack_SetGlobalVar\<close>. The order in which \<^verbatim>\<open>range\<close> goes
  through a map is not specified in Go: \<open>range_order\<close> is the order in which the four
  names of the map of handlers come.
\<close>

record ('s, 'e) init_env =
  ie_netlib :: netlib
  ie_iptables :: "'s iptables"
  ie_services :: services
  GetIfaceAddr :: "host \<Rightarrow> string \<Rightarrow> string + IPNet"
  IP_Equal :: "IP \<Rightarrow> IP \<Rightarrow> bool"
  WriteFile_err :: "string \<Rightarrow> string option"
  eng_Register :: "'e \<Rightarrow> string \<Rightarrow> string + 'e"
  eng_Hack_SetGlobalVar :: "'e \<Rightarrow> string \<Rightarrow> IP \<Rightarrow> 'e"
  range_order :: "string list"

text \<open>
  What \<^verbatim>\<open>InitDriver\<close> reads and changes: the package variables of the driver, the links
  of the host, the iptables ruleset, the files it writes, the chain that
  \<^verbatim>\<open>portmapper.SetIptablesChain\<close> was given last, the engine of the job, and the lines
  logged with \<^verbatim>\<open>job.Logf\<close>.
\<close>

record ('s, 'e) world =
  w_driver :: driver
  w_host :: host
  w_rules :: 's
  w_files :: "string \<rightharpoonup> string"
  w_chain :: "chain option"
  w_engine :: 'e
  w_log :: "init_logline list"

text \<open>
  The first part of \<^verbatim>\<open>InitDriver\<close>, from \<^verbatim>\<open>networkdriver.GetIfaceAddr(bridgeIface)\<close> to
  the end of the \<^verbatim>\<open>if err != nil { ... } else { ... }\<close>: it returns the address of the
  bridge, or the error with which \<^verbatim>\<open>InitDriver\<close> returns. A bridge that is not found is
  created when it is the default one; for a bridge that is found, a bridge IP that
  was asked for must be the IP of the bridge.
\<close>

definition find_bridge ::
  "('s, 'e) init_env \<Rightarrow> string \<Rightarrow> bool \<Rightarrow> ('s, 'e) world
   \<Rightarrow> (init_error + IPNet) \<times> ('s, 'e) world" where
  "find_bridge env bridgeIP usingDefaultBridge w =
     (let bridge = bridgeIface (w_driver w)
      in case GetIfaceAddr env (w_host w) bridge of
           Inl err \<Rightarrow>
             (if \<not> usingDefaultBridge
              then (Inl (GetIfaceAddrError err), w\<lparr>w_log := w_log w @ [BridgeNotFound bridge]\<rparr>)
              else
                (let w1 = w\<lparr>w_log := w_log w @ [CreatingNewBridge bridge]\<rparr>
                 in case createBridge (ie_netlib env) bridge bridgeIP (w_host w1) of
                      (Some e, h) \<Rightarrow> (Inl (CreateBridgeError e), w1\<lparr>w_host := h\<rparr>)
                    | (None, h) \<Rightarrow>
                        (let w2 = w1\<lparr>w_host := h, w_log := w_log w1 @ [GettingIfaceAddr]\<rparr>
                         in case GetIfaceAddr env h bridge of
                              Inl err2 \<Rightarrow> (Inl (GetIfaceAddrError err2), w2)
                            | Inr addr \<Rightarrow> (Inr addr, w2))))
         | Inr addr \<Rightarrow>
             (if bridgeIP \<noteq> [] then
                (case ParseCIDR (ie_netlib env) bridgeIP of
                   None \<Rightarrow> (Inl (ParseBridgeIPError bridgeIP), w)
                 | Some (bip, ipnet) \<Rightarrow>
                     (if \<not> IP_Equal env (fst addr) bip
                      then (Inl (BridgeIPMismatch (fst addr) bip), w)
                      else (Inr addr, w)))
              else (Inr addr, w)))"

text \<open>
  The loop \<^verbatim>\<open>for name, f := range map[string]engine.Handler{...}\<close>, over the names that
  are left: the first error of \<^verbatim>\<open>job.Eng.Register\<close> ends it.
\<close>

fun register_handlers ::
  "('s, 'e) init_env \<Rightarrow> string list \<Rightarrow> 'e \<Rightarrow> string option \<times> 'e" where
  "register_handlers env [] e = (None, e)"
| "register_handlers env (name # names) e =
     (case eng_Register env e name of
        Inl err \<Rightarrow> (Some err, e)
      | Inr e1 \<Rightarrow> register_handlers env names e1)"

definition ip_forward_path :: string where
  "ip_forward_path = ''/proc/sys/net/ipv4/ip_forward''"

text \<open>
  The second part of \<^verbatim>\<open>InitDriver\<close>, with the address \<open>addr\<close> of the bridge: the rules of
  \<^verbatim>\<open>setupIPTables\<close> when iptables is enabled, IPv4 forwarding when it is asked for (a
  failure is logged only), the \<^verbatim>\<open>DOCKER\<close> chain removed and, when iptables is enabled,
  created again and given to the port mapper, then \<^verbatim>\<open>bridgeNetwork\<close>, the global
  variable of the engine and the four handlers.
\<close>

definition configure_network ::
  "('s, 'e) init_env \<Rightarrow> init_job \<Rightarrow> IPNet \<Rightarrow> ('s, 'e) world
   \<Rightarrow> init_status \<times> ('s, 'e) world" where
  "configure_network env job addr w =
     (let ipt = ie_iptables env;
          bridge = bridgeIface (w_driver w)
      in case (if job_EnableIptables job
               then setupIPTables ipt bridge (snd addr) (job_InterContainerCommunication job)
                      (w_rules w)
               else (None, w_rules w)) of
           (Some e, s1) \<Rightarrow> (InitErr (IptablesError e), w\<lparr>w_rules := s1\<rparr>)
         | (None, s1) \<Rightarrow>
             (let w1 = w\<lparr>w_rules := s1\<rparr>;
                  w2 = (if job_EnableIpForward job then
                          (case WriteFile_err env ip_forward_path of
                             Some err \<Rightarrow> w1\<lparr>w_log := w_log w1 @ [UnableToEnableForwarding err]\<rparr>
                           | None \<Rightarrow>
                               w1\<lparr>w_files := (w_files w1)(ip_forward_path \<mapsto> [CHR ''1'', CHR 0x0A])\<rparr>)
                        else w1)
              in case ipt_RemoveExistingChain ipt ''DOCKER'' (w_rules w2) of
                   (Some err, s2) \<Rightarrow> (InitErr (ChainError err), w2\<lparr>w_rules := s2\<rparr>)
                 | (None, s2) \<Rightarrow>
                     (case (if job_EnableIptables job then
                              (case ipt_NewChain ipt ''DOCKER'' bridge s2 of
                                 (Inl err, s3) \<Rightarrow> Inl (err, s3)
                               | (Inr c, s3) \<Rightarrow> Inr (Some c, s3))
                            else Inr (w_chain w2, s2)) of
                        Inl (err, s3) \<Rightarrow> (InitErr (ChainError err), w2\<lparr>w_rules := s3\<rparr>)
                      | Inr (ch, s3) \<Rightarrow>
                          (let w3 = w2\<lparr>w_rules := s3, w_chain := ch,
                                      w_driver := (w_driver w2)\<lparr>bridgeNetwork := snd addr\<rparr>\<rparr>;
                               e1 = eng_Hack_SetGlobalVar env (w_engine w3) ''httpapi.bridgeIP''
                                      (fst addr)
                           in case register_handlers env (range_order env) e1 of
                                (Some err, e2) \<Rightarrow>
                                  (InitErr (RegisterError err), w3\<lparr>w_engine := e2\<rparr>)
                              | (None, e2) \<Rightarrow> (InitOK, w3\<lparr>w_engine := e2\<rparr>)))))"

text \<open>
  The beginning of \<^verbatim>\<open>InitDriver\<close>: the package variables \<^verbatim>\<open>defaultBindingIP\<close> and
  \<^verbatim>\<open>bridgeIface\<close> are set from the job, the bridge being the default one when the job
  names none.
\<close>

definition set_variables :: "('s, 'e) init_env \<Rightarrow> init_job \<Rightarrow> ('s, 'e) world \<Rightarrow> ('s, 'e) world" where
  "set_variables env job w =
     (let d = w_driver w;
          d1 = (if job_DefaultBindingIP job \<noteq> []
                then d\<lparr>defaultBindingIP := ParseIP (ie_services env) (job_DefaultBindingIP job)\<rparr>
                else d);
          d2 = d1\<lparr>bridgeIface := (if job_BridgeIface job = [] then DefaultNetworkBridge
                                  else job_BridgeIface job)\<rparr>
      in w\<lparr>w_driver := d2\<rparr>)"

text \<open>\<^verbatim>\<open>InitDriver\<close>: the variables, then the two parts above.\<close>

definition InitDriver ::
  "('s, 'e) init_env \<Rightarrow> init_job \<Rightarrow> ('s, 'e) world \<Rightarrow> init_status \<times> ('s, 'e) world" where
  "InitDriver env job w =
     (let usingDefaultBridge = (job_BridgeIface job = []);
          w1 = set_variables env job w
      in case find_bridge env (job_BridgeIP job) usingDefaultBridge w1 of
           (Inl e, w2) \<Rightarrow> (InitErr e, w2)
         | (Inr addr, w2) \<Rightarrow> configure_network env job addr w2)"

text \<open>The name of the bridge that \<^verbatim>\<open>InitDriver\<close> uses for a job.\<close>

definition job_bridge :: "init_job \<Rightarrow> string" where
  "job_bridge job =
     (if job_BridgeIface job = [] then DefaultNetworkBridge else job_BridgeIface job)"

text \<open>
  What \<^verbatim>\<open>InitDriver\<close> makes of a ruleset under \<open>list_iptables\<close> once the address \<open>addr\<close> of
  the bridge is known: with iptables enabled, the rules of \<^verbatim>\<open>setupIPTables\<close> and a fresh
  \<^verbatim>\<open>DOCKER\<close> chain; with iptables disabled, the \<^verbatim>\<open>DOCKER\<close> chain is removed only.
\<close>

definition without_chain :: "string \<Rightarrow> string list list \<Rightarrow> string list list" where
  "without_chain name rs = filter (\<lambda>r. \<not> of_chain name r) rs"

definition ruleset_after :: "init_job \<Rightarrow> string \<Rightarrow> ruleset \<Rightarrow> ruleset" where
  "ruleset_after job addr rs =
     (if job_EnableIptables job then
        \<lparr>rs_rules = jump_rule ''DOCKER'' #
            without_chain ''DOCKER''
              (rules_after (job_bridge job) addr (job_InterContainerCommunication job)
                 (rs_rules rs)),
         rs_chains = ''DOCKER'' # removeAll ''DOCKER'' (rs_chains rs)\<rparr>
      else
        \<lparr>rs_rules = without_chain ''DOCKER'' (rs_rules rs),
         rs_chains = removeAll ''DOCKER'' (rs_chains rs)\<rparr>)"

text \<open>
  An example engine and environment, for concrete runs. The engine holds the names of
  its handlers and its global variables, and refuses to register a name twice. The
  address of an interface is the first address of the link of that name.
\<close>

record example_engine =
  eng_handlers :: "string list"
  eng_globals :: "string \<rightharpoonup> IP"

definition example_init_env :: "(ruleset, example_engine) init_env" where
  "example_init_env =
     \<lparr>ie_netlib = example_netlib False,
      ie_iptables = list_iptables,
      ie_services = example_services 0,
      GetIfaceAddr = (\<lambda>h name.
        case links h name of
          None \<Rightarrow> Inl ''no such network interface''
        | Some l \<Rightarrow>
            (case link_addrs l of
               [] \<Rightarrow> Inl ''interface has no IP addresses''
             | a # as \<Rightarrow> Inr (takeWhile (\<lambda>c. c \<noteq> CHR ''/'') a, a))),
      IP_Equal = (\<lambda>a b. a = b),
      WriteFile_err = (\<lambda>path. None),
      eng_Register = (\<lambda>e name.
        if name \<in> set (eng_handlers e) then Inl (''handler already registered: '' @ name)
        else Inr (e\<lparr>eng_handlers := eng_handlers e @ [name]\<rparr>)),
      eng_Hack_SetGlobalVar = (\<lambda>e k v. e\<lparr>eng_globals := (eng_globals e)(k \<mapsto> v)\<rparr>),
      range_order = [''allocate_interface'', ''release_interface'', ''allocate_port'', ''link'']\<rparr>"

text \<open>
  An example job (iptables enabled, the default bridge, no bridge IP) and an example
  world whose host has the bridge \<open>docker0\<close> and whose ruleset holds the rules \<open>rs\<close>.
\<close>

definition example_init_job :: "bool \<Rightarrow> init_job" where
  "example_init_job icc =
     \<lparr>job_EnableIptables = True, job_InterContainerCommunication = icc,
      job_EnableIpForward = True, job_BridgeIP = [], job_DefaultBindingIP = [],
      job_BridgeIface = []\<rparr>"

definition example_world :: "string list list \<Rightarrow> (ruleset, example_engine) world" where
  "example_world rs =
     \<lparr>w_driver = \<lparr>currentInterfaces = Map.empty, bridgeIface = [], bridgeNetwork = [],
                  defaultBindingIP = Some ''0.0.0.0'', calls = [], logged = []\<rparr>,
      w_host = \<lparr>resolvConf = Some [''172.17.0.5/32''],
                links = [''docker0'' \<mapsto> \<lparr>link_addrs = [''172.17.42.1/16''], link_up = True\<rparr>]\<rparr>,
      w_rules = \<lparr>rs_rules = rs, rs_chains = []\<rparr>,
      w_files = Map.empty,
      w_chain = None,
      w_engine = \<lparr>eng_handlers = [], eng_globals = Map.empty\<rparr>,
      w_log = []\<rparr>"

text \<open>
  An environment in which \<^verbatim>\<open>netlink.NetworkLinkUp\<close> fails, and a world whose host has no
  bridge yet and no nameserver.
\<close>

definition example_init_env_down :: "(ruleset, example_engine) init_env" where
  "example_init_env_down =
     example_init_env\<lparr>ie_netlib :=
       (example_netlib False)\<lparr>NetworkLinkUp_err := (\<lambda>name. Some ''operation not permitted'')\<rparr>\<rparr>"

definition example_world_no_bridge :: "(ruleset, example_engine) world" where
  "example_world_no_bridge =
     (example_world [])\<lparr>w_host := \<lparr>resolvConf = None, links = Map.empty\<rparr>\<rparr>"

section \<open>daemon/config.go and daemon/daemon.go: the configuration\<close>

record Config =
  Pidfile :: string
  Root :: string
  AutoRestart :: bool
  Dns :: "string list"
  DnsSearch :: "string list"
  EnableIptables :: bool
  EnableIpForward :: bool
  DefaultIp :: string
  BridgeIface :: string
  BridgeIP :: string
  InterContainerCommunication :: bool
  GraphDriver :: string
  GraphOptions :: "string list"
  ExecDriver :: string
  Mtu :: int
  DisableNetwork :: bool
  EnableSelinuxSupport :: bool
  Context :: "string \<rightharpoonup> string list"

definition defaultNetworkMtu :: int where
  "defaultNetworkMtu = 1500"

definition DisableNetworkBridge :: string where
  "DisableNetworkBridge = ''none''"

text \<open>
  \<^verbatim>\<open>GetDefaultNetworkMtu\<close>; the argument is the MTU of the interface of the default
  route, \<open>None\<close> when \<^verbatim>\<open>networkdriver.GetDefaultRouteIface\<close> returns an error.
\<close>

definition GetDefaultNetworkMtu :: "int option \<Rightarrow> int" where
  "GetDefaultNetworkMtu route_mtu =
     (case route_mtu of Some mtu \<Rightarrow> mtu | None \<Rightarrow> defaultNetworkMtu)"

datatype graph_error = NonUniqueName | OtherGraphError string

datatype daemon_error =
    MutuallyExclusiveBridgeOptions
  | IccRequiresIptables
  | GraphError graph_error
  | AlreadyLoaded
  | InvalidID string
  | ToDiskError string
  | BootError string

text \<open>
  \<^verbatim>\<open>NewDaemonFromDirectory\<close> up to the two checks of the options. What follows them
  (the pidfile, the checks of the system, the drivers, the graphs, the network driver,
  the restore) is the parameter \<open>boot\<close>, applied to the configuration as it stands at
  that point. The configuration is reached through a pointer, so the function returns
  it with the result.
\<close>

definition NewDaemonFromDirectory ::
  "int option \<Rightarrow> (Config \<Rightarrow> (daemon_error + 'd) \<times> Config) \<Rightarrow> Config
   \<Rightarrow> (daemon_error + 'd) \<times> Config" where
  "NewDaemonFromDirectory route_mtu boot config =
     (let config1 = (if Mtu config = 0 then config\<lparr>Mtu := GetDefaultNetworkMtu route_mtu\<rparr>
                     else config)
      in if BridgeIface config1 \<noteq> [] \<and> BridgeIP config1 \<noteq> []
         then (Inl MutuallyExclusiveBridgeOptions, config1)
         else if \<not> EnableIptables config1 \<and> \<not> InterContainerCommunication config1
         then (Inl IccRequiresIptables, config1)
         else boot (config1\<lparr>DisableNetwork := (BridgeIface config1 = DisableNetworkBridge)\<rparr>))"

definition NewDaemon ::
  "int option \<Rightarrow> (Config \<Rightarrow> (daemon_error + 'd) \<times> Config) \<Rightarrow> Config
   \<Rightarrow> (daemon_error + 'd) \<times> Config" where
  "NewDaemon route_mtu boot config =
     (case NewDaemonFromDirectory route_mtu boot config of
        (Inl err, config') \<Rightarrow> (Inl err, config')
      | (Inr daemon, config') \<Rightarrow> (Inr daemon, config'))"

text \<open>The defaults of \<^verbatim>\<open>InstallFlags\<close>.\<close>

definition default_config :: Config where
  "default_config =
     \<lparr>Pidfile = ''/var/run/docker.pid'', Root = ''/var/lib/docker'', AutoRestart = True,
      Dns = [], DnsSearch = [], EnableIptables = True, EnableIpForward = True,
      DefaultIp = ''0.0.0.0'', BridgeIface = [], BridgeIP = [],
      InterContainerCommunication = True, GraphDriver = [], GraphOptions = [],
      ExecDriver = ''native'', Mtu = 0, DisableNetwork = False,
      EnableSelinuxSupport = False, Context = Map.empty\<rparr>"

section \<open>daemon/daemon.go: names and registration of containers\<close>

text \<open>
  Modelled from the spec: \<^verbatim>\<open>daemon/state.go\<close> is missing. The state of a container
  holds whether it is running, the PID of its init process and its last exit code;
  \<^verbatim>\<open>SetStopped\<close> marks it as not running, with no PID and the given exit code.
\<close>

record State =
  Running :: bool
  Pid :: int
  ExitCode :: int

definition IsRunning :: "State \<Rightarrow> bool" where
  "IsRunning st = Running st"

definition SetStopped :: "int \<Rightarrow> State \<Rightarrow> State" where
  "SetStopped exitCode st = st\<lparr>Running := False, Pid := 0, ExitCode := exitCode\<rparr>"

text \<open>
  A container, with the fields that \<^verbatim>\<open>register\<close> and \<^verbatim>\<open>ensureName\<close> read or write.
  \<open>ContainerExecDriver\<close> is the field \<^verbatim>\<open>ExecDriver\<close> of the container (the configuration
  of the daemon has a field of the same name). \<open>ContainerConfig\<close> is the field \<^verbatim>\<open>Config\<close>,
  a pointer to a \<^verbatim>\<open>runconfig.Config\<close> (\<^verbatim>\<open>newContainer\<close> sets it from its argument of type
  \<^verbatim>\<open>*runconfig.Config\<close>); \<open>None\<close> is the nil pointer, and of the configuration only the
  field \<^verbatim>\<open>OpenStdin\<close> is read. \<open>has_daemon\<close> says that \<^verbatim>\<open>container.daemon\<close> is not nil,
  \<open>has_stdout\<close> and \<open>has_stderr\<close> that the two broadcast writers are there, \<open>has_stdin\<close>
  that \<^verbatim>\<open>container.stdin\<close> is the read end of a pipe; \<open>stdinPipe\<close> is nil, the write end
  of that pipe, or a writer that drops what it is given.
\<close>

record runconfig =
  OpenStdin :: bool

datatype stdin_end = PipeWriter | DiscardWriter

record Container =
  ID :: string
  Name :: string
  ContainerExecDriver :: string
  State :: State
  ContainerConfig :: "runconfig option"
  has_daemon :: bool
  has_stdout :: bool
  has_stderr :: bool
  has_stdin :: bool
  stdinPipe :: "stdin_end option"

text \<open>
  The calls that \<^verbatim>\<open>register\<close> makes to the exec driver, to \<^verbatim>\<open>lxc.KillLxc\<close> and to the
  graph driver (\<^verbatim>\<open>container.Unmount\<close>), recorded in order.
\<close>

datatype exec_call = KillLxc string int | Terminate string int | Unmount string

text \<open>
  The daemon: the container store, the index of ids, the name graph (of any type
  \<open>'g\<close>), the container files on disk by container id, and the calls made so far.
\<close>

record 'g daemon =
  containers :: "string \<rightharpoonup> Container"
  idIndex :: "string list"
  containerGraph :: 'g
  disk :: "string \<rightharpoonup> Container"
  exec_calls :: "exec_call list"

text \<open>
  What the daemon uses and the sources at hand do not hold, as parameters: the name
  graph (\<^verbatim>\<open>Set\<close> returns the new graph or an error, \<^verbatim>\<open>Get\<close> the id of a name),
  \<^verbatim>\<open>namesgenerator.GetRandomName\<close> (the name drawn at each retry), the lookup of the
  index of ids, \<^verbatim>\<open>validateID\<close> and \<^verbatim>\<open>container.ToDisk\<close> (\<open>Some\<close> error message when they
  fail), and the answer of \<^verbatim>\<open>execDriver.Info(id).IsRunning()\<close> after the calls made so
  far.
\<close>

record 'g daemon_env =
  graph_Set :: "'g \<Rightarrow> string \<Rightarrow> string \<Rightarrow> graph_error + 'g"
  graph_Get :: "'g \<Rightarrow> string \<Rightarrow> string option"
  GetRandomName :: "nat \<Rightarrow> string"
  idIndex_Get :: "string list \<Rightarrow> string \<Rightarrow> string option"
  validateID :: "string \<Rightarrow> string option"
  ToDisk_err :: "Container \<Rightarrow> string option"
  Info_IsRunning :: "exec_call list \<Rightarrow> string \<Rightarrow> bool"

text \<open>
  Modelled from the spec: \<^verbatim>\<open>utils.TruncateID\<close> is missing; the spec has the 12-character
  truncated id.
\<close>

definition TruncateID :: "string \<Rightarrow> string" where
  "TruncateID cid = take 12 cid"

text \<open>
  \<^verbatim>\<open>if name[0] != '/' { name = "/" + name }\<close>, for a name that is not empty.
\<close>

definition full_name :: "string \<Rightarrow> string" where
  "full_name name = (if hd name \<noteq> CHR ''/'' then ''/'' @ name else name)"

text \<open>
  The loop \<^verbatim>\<open>for i := 0; i < 6; i++\<close> of \<^verbatim>\<open>generateNewName\<close>, from the index \<open>i\<close> with \<open>n\<close>
  iterations left. \<open>Inr None\<close>: the loop ran out; \<open>Inr (Some r)\<close>: the function returned
  \<open>r\<close> from inside the loop. \<^verbatim>\<open>name[0]\<close> panics on an empty name.
\<close>

fun try_names ::
  "'g daemon_env \<Rightarrow> string \<Rightarrow> nat \<Rightarrow> nat \<Rightarrow> 'g daemon
   \<Rightarrow> panic + ((daemon_error + string) \<times> 'g daemon) option" where
  "try_names env cid i 0 dm = Inr None"
| "try_names env cid i (Suc n) dm =
     (let name = GetRandomName env i
      in if name = [] then Inl IndexOutOfRange
         else (case graph_Set env (containerGraph dm) (full_name name) cid of
                 Inl err \<Rightarrow>
                   (if err \<noteq> NonUniqueName then Inr (Some (Inl (GraphError err), dm))
                    else try_names env cid (Suc i) n dm)
               | Inr g \<Rightarrow> Inr (Some (Inr (full_name name), dm\<lparr>containerGraph := g\<rparr>))))"

definition generateNewName ::
  "'g daemon_env \<Rightarrow> string \<Rightarrow> 'g daemon \<Rightarrow> panic + (daemon_error + string) \<times> 'g daemon" where
  "generateNewName env cid dm =
     (case try_names env cid 0 6 dm of
        Inl p \<Rightarrow> Inl p
      | Inr (Some r) \<Rightarrow> Inr r
      | Inr None \<Rightarrow>
          (let name = ''/'' @ TruncateID cid
           in case graph_Set env (containerGraph dm) name cid of
                Inl err \<Rightarrow> Inr (Inl (GraphError err), dm)
              | Inr g \<Rightarrow> Inr (Inr name, dm\<lparr>containerGraph := g\<rparr>)))"

text \<open>
  \<^verbatim>\<open>container.ToDisk\<close>: the container file is written unless the write fails.
\<close>

definition ToDisk :: "'g daemon_env \<Rightarrow> Container \<Rightarrow> 'g daemon \<Rightarrow> string option \<times> 'g daemon" where
  "ToDisk env c dm =
     (case ToDisk_err env c of
        Some err \<Rightarrow> (Some err, dm)
      | None \<Rightarrow> (None, dm\<lparr>disk := (disk dm)(ID c \<mapsto> c)\<rparr>))"

text \<open>
  \<^verbatim>\<open>ensureName\<close>: a container without a name gets a generated one, which is saved (an
  error of the save is logged only).
\<close>

definition ensureName ::
  "'g daemon_env \<Rightarrow> Container \<Rightarrow> 'g daemon
   \<Rightarrow> panic + daemon_error option \<times> Container \<times> 'g daemon" where
  "ensureName env c dm =
     (if Name c = [] then
        (case generateNewName env (ID c) dm of
           Inl p \<Rightarrow> Inl p
         | Inr (Inl err, dm1) \<Rightarrow> Inr (Some err, c, dm1)
         | Inr (Inr name, dm1) \<Rightarrow>
             (let c1 = c\<lparr>Name := name\<rparr>
              in Inr (None, c1, snd (ToDisk env c1 dm1))))
      else Inr (None, c, dm))"

text \<open>
  \<^verbatim>\<open>GetFullContainerName\<close>, \<^verbatim>\<open>GetByName\<close>, \<^verbatim>\<open>Get\<close> and \<^verbatim>\<open>Exists\<close>; \<open>None\<close> is the nil
  container (the error messages of the first two are not used by \<^verbatim>\<open>Get\<close>).
\<close>

definition GetFullContainerName :: "string \<Rightarrow> string option" where
  "GetFullContainerName name =
     (if name = [] then None
      else if hd name \<noteq> CHR ''/'' then Some (''/'' @ name) else Some name)"

definition GetByName :: "'g daemon_env \<Rightarrow> 'g daemon \<Rightarrow> string \<Rightarrow> Container option" where
  "GetByName env dm name =
     (case GetFullContainerName name of
        None \<Rightarrow> None
      | Some fullName \<Rightarrow>
          (case graph_Get env (containerGraph dm) fullName of
             None \<Rightarrow> None
           | Some entity_id \<Rightarrow> containers dm entity_id))"

definition daemon_Get :: "'g daemon_env \<Rightarrow> 'g daemon \<Rightarrow> string \<Rightarrow> Container option" where
  "daemon_Get env dm name =
     (case idIndex_Get env (idIndex dm) name of
        Some cid \<Rightarrow> containers dm cid
      | None \<Rightarrow> GetByName env dm name)"

definition Exists :: "'g daemon_env \<Rightarrow> 'g daemon \<Rightarrow> string \<Rightarrow> bool" where
  "Exists env dm cid = (daemon_Get env dm cid \<noteq> None)"

text \<open>\<^verbatim>\<open>strings.Contains(s, sub)\<close>.\<close>

fun Contains :: "string \<Rightarrow> string \<Rightarrow> bool" where
  "Contains [] sub = (sub = [])"
| "Contains (c # cs) sub = (take (length sub) (c # cs) = sub \<or> Contains cs sub)"

text \<open>
  The container is reached through a pointer, which \<^verbatim>\<open>daemon.containers.Add\<close> puts in
  the store: what \<^verbatim>\<open>register\<close> does to the container afterwards shows in the store.
\<close>

definition store :: "Container \<Rightarrow> 'g daemon \<Rightarrow> 'g daemon" where
  "store c dm = dm\<lparr>containers := (containers dm)(ID c \<mapsto> c)\<rparr>"

text \<open>
  The branch \<^verbatim>\<open>if container.State.IsRunning()\<close> of \<^verbatim>\<open>register\<close>. The container is set
  to stopped with exit code 0 first; the old process is killed (\<^verbatim>\<open>lxc.KillLxc\<close> for an
  empty or lxc exec driver, \<^verbatim>\<open>execDriver.Terminate\<close> otherwise), the container is
  unmounted and saved, errors logged only. Then the exec driver is asked: if it does not
  report the container as running, the container is set to stopped with exit code -127
  and saved, and an error of that save is returned.
\<close>

definition kill_old_running ::
  "'g daemon_env \<Rightarrow> Container \<Rightarrow> 'g daemon \<Rightarrow> daemon_error option \<times> Container \<times> 'g daemon" where
  "kill_old_running env c dm =
     (let existingPid = Pid (State c);
          c1 = c\<lparr>State := SetStopped 0 (State c)\<rparr>;
          dm1 = store c1 dm;
          dm2 = (if ContainerExecDriver c1 = [] \<or> Contains (ContainerExecDriver c1) ''lxc''
                 then dm1\<lparr>exec_calls := exec_calls dm1 @ [KillLxc (ID c1) 9]\<rparr>
                 else dm1\<lparr>exec_calls := exec_calls dm1 @ [Terminate (ID c1) existingPid]\<rparr>);
          dm3 = dm2\<lparr>exec_calls := exec_calls dm2 @ [Unmount (ID c1)]\<rparr>;
          dm4 = snd (ToDisk env c1 dm3)
      in if \<not> Info_IsRunning env (exec_calls dm4) (ID c1) then
           (let c2 = c1\<lparr>State := SetStopped (- 127) (State c1)\<rparr>;
                dm5 = store c2 dm4
            in case ToDisk env c2 dm5 of
                 (Some err, dm6) \<Rightarrow> (Some (ToDiskError err), c2, dm6)
               | (None, dm6) \<Rightarrow> (None, c2, dm6))
         else (None, c1, dm4))"

text \<open>
  \<^verbatim>\<open>register\<close>. After the checks and \<^verbatim>\<open>ensureName\<close> the container gets its daemon and
  its two broadcast writers; then \<^verbatim>\<open>container.Config.OpenStdin\<close> is read, which panics
  when \<^verbatim>\<open>Config\<close> is nil, and standard input is attached accordingly; then the container
  is added to the store and its id to the index.
\<close>

definition register ::
  "'g daemon_env \<Rightarrow> Container \<Rightarrow> 'g daemon
   \<Rightarrow> panic + daemon_error option \<times> Container \<times> 'g daemon" where
  "register env container dm =
     (if has_daemon container \<or> Exists env dm (ID container)
      then Inr (Some AlreadyLoaded, container, dm)
      else case validateID env (ID container) of
             Some err \<Rightarrow> Inr (Some (InvalidID err), container, dm)
           | None \<Rightarrow>
               (case ensureName env container dm of
                  Inl p \<Rightarrow> Inl p
                | Inr (Some err, c1, dm1) \<Rightarrow> Inr (Some err, c1, dm1)
                | Inr (None, c1, dm1) \<Rightarrow>
                    (let c2 = c1\<lparr>has_daemon := True, has_stderr := True, has_stdout := True\<rparr>
                     in case ContainerConfig c2 of
                          None \<Rightarrow> Inl NilPointerDereference
                        | Some config \<Rightarrow>
                            (let c3 = (if OpenStdin config
                                       then c2\<lparr>has_stdin := True, stdinPipe := Some PipeWriter\<rparr>
                                       else c2\<lparr>stdinPipe := Some DiscardWriter\<rparr>);
                                 dm2 = (store c3 dm1)\<lparr>idIndex := idIndex dm1 @ [ID c3]\<rparr>
                             in if IsRunning (State c3) then Inr (kill_old_running env c3 dm2)
                                else Inr (None, c3, dm2)))))"

text \<open>
  An example environment, for concrete runs. Modelled from the spec: the name graph is
  a map from names to ids, and \<^verbatim>\<open>Set\<close> fails with a non-unique-name error when the name
  is taken; the index of ids resolves a prefix that exactly one id has. The names drawn
  are \<open>happy_turing\<close>, \<open>happy_turing1\<close>, \<open>happy_turing11\<close> and so on; \<open>alive\<close> is the answer
  of the exec driver, and \<open>disk_ok\<close> says whether saving a container works.
\<close>

definition example_env :: "bool \<Rightarrow> bool \<Rightarrow> (string \<rightharpoonup> string) daemon_env" where
  "example_env alive disk_ok =
     \<lparr>graph_Set = (\<lambda>g name cid.
        case g name of Some other \<Rightarrow> Inl NonUniqueName | None \<Rightarrow> Inr (g(name \<mapsto> cid))),
      graph_Get = (\<lambda>g name. g name),
      GetRandomName = (\<lambda>i. ''happy_turing'' @ replicate i (CHR ''1'')),
      idIndex_Get = (\<lambda>ids s.
        case filter (\<lambda>x. take (length s) x = s) ids of [x] \<Rightarrow> Some x | _ \<Rightarrow> None),
      validateID = (\<lambda>cid. if cid = [] then Some ''Invalid empty id'' else None),
      ToDisk_err = (\<lambda>c. if disk_ok then None else Some ''no space left on device''),
      Info_IsRunning = (\<lambda>cs cid. alive)\<rparr>"

definition example_daemon :: "(string \<rightharpoonup> string) daemon" where
  "example_daemon =
     \<lparr>containers = Map.empty, idIndex = [], containerGraph = [''/web'' \<mapsto> ''4f2a''],
      disk = Map.empty, exec_calls = []\<rparr>"

definition example_container :: Container where
  "example_container =
     \<lparr>ID = ''4f2a'', Name = ''/web'', ContainerExecDriver = ''native-0.2'',
      State = \<lparr>Running = True, Pid = 4242, ExitCode = 0\<rparr>,
      ContainerConfig = Some \<lparr>OpenStdin = False\<rparr>, has_daemon = False,
      has_stdout = False, has_stderr = False, has_stdin = False, stdinPipe = None\<rparr>"

text \<open>Two name graphs in which the first two, and the first six, names drawn are taken.\<close>

definition taken_two :: "string \<rightharpoonup> string" where
  "taken_two = [''/happy_turing'' \<mapsto> ''77aa'', ''/happy_turing1'' \<mapsto> ''88bb'']"

definition taken_six :: "string \<rightharpoonup> string" where
  "taken_six = [''/happy_turing'' \<mapsto> ''77aa'', ''/happy_turing1'' \<mapsto> ''88bb'',
     ''/happy_turing11'' \<mapsto> ''99cc'', ''/happy_turing111'' \<mapsto> ''aadd'',
     ''/happy_turing1111'' \<mapsto> ''bbee'', ''/happy_turing11111'' \<mapsto> ''ccff'']"

section \<open>Properties of the signal trap\<close>

lemma interrupt_trapped: "is_interrupt sig \<Longrightarrow> sig \<in> set (trap_signals env)"
  by (auto simp: is_interrupt_def trap_signals_def)

lemma interrupt_start: "is_interrupt sig \<Longrightarrow> start_pc sig = AtLoad1"
  by (simp add: is_interrupt_def start_pc_def)

lemma trap_exited_stays:
  "exited st \<noteq> None \<Longrightarrow> foldl (trap_step env) st evs = st"
  by (induction evs) (simp_all add: trap_step_def)

lemma trap_run_append:
  "trap_run env (evs @ evs') = foldl (trap_step env) (trap_run env evs) evs'"
  by (simp add: trap_run_def)

subsection \<open>Handlers that run one at a time\<close>

text \<open>
  The first handler starts \<^verbatim>\<open>cleanup()\<close> and waits in it; the second and the third
  only increment the counter and return; the fourth finds the counter at 3 and ends
  the process.
\<close>

lemma seq_first:
  assumes "is_interrupt a"
  shows "trap_run env [Deliver a, Step 0, Step 0, Step 0] =
     trap_init\<lparr>interruptCount := 1, handlers := [\<lparr>h_sig = a, h_pc = InCleanup\<rparr>],
       cleanup_called := True\<rparr>"
  using assms
  by (simp add: trap_run_def trap_step_def trap_init_def interrupt_trapped interrupt_start
      handler_step_def set_pc_def)

lemma seq_later:
  assumes "is_interrupt a" and "exited st = None" and "k = length (handlers st)"
    and "interruptCount st = c" and "c = 1 \<or> c = 2"
  shows "foldl (trap_step env) st [Deliver a, Step k, Step k, Step k] =
     st\<lparr>interruptCount := c + 1, handlers := handlers st @ [\<lparr>h_sig = a, h_pc = Returned\<rparr>]\<rparr>"
  using assms
  by (auto simp: trap_step_def interrupt_trapped interrupt_start handler_step_def set_pc_def)

lemma seq_force:
  assumes "is_interrupt a" and "exited st = None" and "k = length (handlers st)"
    and "interruptCount st = 3"
  shows "foldl (trap_step env) st [Deliver a, Step k, Step k, Step k] =
     st\<lparr>handlers := handlers st @ [\<lparr>h_sig = a, h_pc = AtExit128\<rparr>],
        exited := Some (128 + signum a)\<rparr>"
  using assms
  by (simp add: trap_step_def interrupt_trapped interrupt_start handler_step_def set_pc_def)

lemma seq_result:
  assumes "list_all is_interrupt sigs"
  shows "exited (trap_run env (one_at_a_time sigs)) =
           (if length sigs < 4 then None else Some (128 + signum (sigs ! 3)))
         \<and> cleanup_called (trap_run env (one_at_a_time sigs)) = (sigs \<noteq> [])
         \<and> \<not> cleanup_returned (trap_run env (one_at_a_time sigs))"
proof -
  let ?four = "\<lambda>k a. [Deliver a, Step k, Step k, Step k]"
  consider "sigs = []" | a where "sigs = [a]" | a b where "sigs = [a, b]"
    | a b c where "sigs = [a, b, c]" | a b c d r where "sigs = a # b # c # d # r"
    by (metis list.exhaust)
  then show ?thesis
  proof cases
    case 1
    then show ?thesis by (simp add: one_at_a_time_def trap_run_def trap_init_def)
  next
    case 2
    with assms seq_first [of a env] show ?thesis
      by (simp add: one_at_a_time_def trap_init_def)
  next
    case 3
    with assms have ab: "is_interrupt a" "is_interrupt b" by simp_all
    have "trap_run env (one_at_a_time sigs) =
        foldl (trap_step env) (trap_run env (?four 0 a)) (?four 1 b)"
      using 3 by (simp add: one_at_a_time_def trap_run_def)
    also have "\<dots> = (trap_run env (?four 0 a))\<lparr>interruptCount := 1 + 1,
         handlers := handlers (trap_run env (?four 0 a)) @ [\<lparr>h_sig = b, h_pc = Returned\<rparr>]\<rparr>"
      by (rule seq_later [OF ab(2)]) (simp_all add: seq_first [OF ab(1)] trap_init_def)
    finally show ?thesis using 3 by (simp add: seq_first [OF ab(1)] trap_init_def)
  next
    case 4
    with assms have abc: "is_interrupt a" "is_interrupt b" "is_interrupt c" by simp_all
    let ?s1 = "trap_run env (?four 0 a)"
    let ?s2 = "?s1\<lparr>interruptCount := 1 + 1,
         handlers := handlers ?s1 @ [\<lparr>h_sig = b, h_pc = Returned\<rparr>]\<rparr>"
    let ?s3 = "?s2\<lparr>interruptCount := 2 + 1,
         handlers := handlers ?s2 @ [\<lparr>h_sig = c, h_pc = Returned\<rparr>]\<rparr>"
    have s2: "foldl (trap_step env) ?s1 (?four 1 b) = ?s2"
      by (rule seq_later [OF abc(2)]) (simp_all add: seq_first [OF abc(1)] trap_init_def)
    have s3: "foldl (trap_step env) ?s2 (?four 2 c) = ?s3"
      by (rule seq_later [OF abc(3)]) (simp_all add: seq_first [OF abc(1)] trap_init_def)
    have "trap_run env (one_at_a_time sigs) =
        foldl (trap_step env) (foldl (trap_step env) ?s1 (?four 1 b)) (?four 2 c)"
      using 4 by (simp add: one_at_a_time_def trap_run_def numeral_2_eq_2)
    also have "\<dots> = ?s3" by (simp only: s2 s3)
    finally show ?thesis using 4 by (simp add: seq_first [OF abc(1)] trap_init_def)
  next
    case 5
    with assms have abcd: "is_interrupt a" "is_interrupt b" "is_interrupt c" "is_interrupt d"
      by simp_all
    let ?s1 = "trap_run env (?four 0 a)"
    let ?s2 = "?s1\<lparr>interruptCount := 1 + 1,
         handlers := handlers ?s1 @ [\<lparr>h_sig = b, h_pc = Returned\<rparr>]\<rparr>"
    let ?s3 = "?s2\<lparr>interruptCount := 2 + 1,
         handlers := handlers ?s2 @ [\<lparr>h_sig = c, h_pc = Returned\<rparr>]\<rparr>"
    let ?s4 = "?s3\<lparr>handlers := handlers ?s3 @ [\<lparr>h_sig = d, h_pc = AtExit128\<rparr>],
        exited := Some (128 + signum d)\<rparr>"
    have s2: "foldl (trap_step env) ?s1 (?four 1 b) = ?s2"
      by (rule seq_later [OF abcd(2)]) (simp_all add: seq_first [OF abcd(1)] trap_init_def)
    have s3: "foldl (trap_step env) ?s2 (?four 2 c) = ?s3"
      by (rule seq_later [OF abcd(3)]) (simp_all add: seq_first [OF abcd(1)] trap_init_def)
    have s4: "foldl (trap_step env) ?s3 (?four 3 d) = ?s4"
      by (rule seq_force [OF abcd(4)]) (simp_all add: seq_first [OF abcd(1)] trap_init_def)
    have "trap_run env (one_at_a_time sigs) =
        foldl (trap_step env)
          (foldl (trap_step env) (foldl (trap_step env) (foldl (trap_step env) ?s1 (?four 1 b))
             (?four 2 c)) (?four 3 d)) (seq_from 4 r)"
      using 5 by (simp add: one_at_a_time_def trap_run_def numeral_2_eq_2 numeral_3_eq_3
          eval_nat_numeral)
    also have "\<dots> = foldl (trap_step env) ?s4 (seq_from 4 r)" by (simp only: s2 s3 s4)
    also have "\<dots> = ?s4" by (rule trap_exited_stays) simp
    finally show ?thesis using 5 by (simp add: seq_first [OF abcd(1)] trap_init_def)
  qed
qed

subsection \<open>All interleavings\<close>

text \<open>
  Whatever the order of the steps, the process leaves with status 128 + the number of
  a SIGINT or SIGTERM only from a handler that found the counter at 3 or more, and the
  counter is the number of handlers that have incremented it: at least four SIGINT or
  SIGTERM have been received by then.
\<close>

lemma filter_update_count:
  "i < length xs \<Longrightarrow>
   length (filter P (xs[i := y])) + (if P (xs ! i) then 1 else 0)
     = length (filter P xs) + (if P y then 1 else 0)"
proof (induction xs arbitrary: i)
  case Nil
  then show ?case by simp
next
  case (Cons x xs)
  then show ?case by (cases i) auto
qed

lemma list_ex_update:
  "list_ex P (xs[i := y]) \<Longrightarrow> P y \<or> list_ex P xs"
  using set_update_subset_insert [of xs i y] by (auto simp: list_ex_iff)

lemma list_all_update:
  "list_all P xs \<Longrightarrow> P y \<Longrightarrow> list_all P (xs[i := y])"
  using set_update_subset_insert [of xs i y] by (auto simp: list_all_iff)

lemma small_word: "n < 3 \<Longrightarrow> (of_nat n :: 32 word) < 3"
proof -
  assume "n < 3"
  then have "n = 0 \<or> n = 1 \<or> n = 2" by arith
  then show ?thesis by auto
qed

lemma signum_inj: "signum a = signum b \<Longrightarrow> a = b"
  by (cases a; cases b) simp_all

lemma signum_pos: "128 + signum a \<noteq> 0"
  by (cases a) simp_all

lemma trap_inv_init: "trap_inv trap_init"
  by (simp add: trap_inv_def trap_init_def)

lemma trap_inv_set_pc:
  assumes inv: "trap_inv st" and i: "i < length (handlers st)"
    and ex: "exited st = None"
    and pc: "h_pc (handlers st ! i) = p"
    and ok: "(p = AtLoad1 \<and> q = AtAdd) \<or> (p = AtLoad1 \<and> q = AtExit128 \<and> \<not> interruptCount st < 3)
           \<or> (p = AtLoad2 \<and> (q = InCleanup \<or> q = Returned))"
  shows "trap_inv (set_pc i q st)"
proof -
  let ?hs = "handlers st"
  let ?h = "?hs ! i"
  let ?h' = "?h\<lparr>h_pc := q\<rparr>"
  have hin: "?h \<in> set ?hs" using i by simp
  from inv have ws: "well_started ?h" using hin by (auto simp: trap_inv_def list_all_iff)
  from ok pc have int: "is_interrupt (h_sig ?h)"
    using ws by (auto simp: well_started_def)
  have same: "added ?h' = added ?h" using ok pc by (auto simp: added_def)
  from filter_update_count [OF i, of added ?h'] same
  have n: "length (filter added (?hs[i := ?h'])) = length (filter added ?hs)"
    by (simp split: if_splits)
  have three: "3 \<le> length (filter added ?hs)" if "q = AtExit128"
  proof (rule ccontr)
    assume "\<not> 3 \<le> length (filter added ?hs)"
    then have "(of_nat (length (filter added ?hs)) :: 32 word) < 3"
      by (intro small_word) simp
    with inv ok that show False by (auto simp: trap_inv_def)
  qed
  have f: "list_ex forcing (?hs[i := ?h']) \<Longrightarrow> 3 \<le> length (filter added ?hs)"
  proof -
    assume "list_ex forcing (?hs[i := ?h'])"
    from list_ex_update [OF this] show ?thesis
    proof
      assume "forcing ?h'"
      then have "q = AtExit128" by (simp add: forcing_def)
      then show ?thesis by (rule three)
    next
      assume "list_ex forcing ?hs"
      with inv show ?thesis by (simp add: trap_inv_def)
    qed
  qed
  have w: "list_all well_started (?hs[i := ?h'])"
    using inv int by (intro list_all_update) (simp_all add: trap_inv_def well_started_def)
  show ?thesis
    using inv n f w ex by (simp add: trap_inv_def set_pc_def)
qed

lemma trap_inv_add:
  assumes inv: "trap_inv st" and i: "i < length (handlers st)"
    and ex: "exited st = None"
    and pc: "h_pc (handlers st ! i) = AtAdd"
  shows "trap_inv (set_pc i AtLoad2 (st\<lparr>interruptCount := interruptCount st + 1\<rparr>))"
proof -
  let ?hs = "handlers st"
  let ?h = "?hs ! i"
  let ?h' = "?h\<lparr>h_pc := AtLoad2\<rparr>"
  have hin: "?h \<in> set ?hs" using i by simp
  from inv have ws: "well_started ?h" using hin by (auto simp: trap_inv_def list_all_iff)
  from pc have int: "is_interrupt (h_sig ?h)"
    using ws by (auto simp: well_started_def)
  from filter_update_count [OF i, of added ?h'] pc
  have n: "length (filter added (?hs[i := ?h'])) = Suc (length (filter added ?hs))"
    by (simp add: added_def)
  have f: "list_ex forcing (?hs[i := ?h']) \<Longrightarrow> 3 \<le> length (filter added ?hs)"
  proof -
    assume "list_ex forcing (?hs[i := ?h'])"
    from list_ex_update [OF this] have "list_ex forcing ?hs" by (simp add: forcing_def)
    with inv show ?thesis by (simp add: trap_inv_def)
  qed
  have w: "list_all well_started (?hs[i := ?h'])"
    using inv int by (intro list_all_update) (simp_all add: trap_inv_def well_started_def)
  show ?thesis
    using inv n f w ex by (auto simp: trap_inv_def set_pc_def)
qed

lemma trap_inv_handler_step:
  assumes inv: "trap_inv st" and i: "i < length (handlers st)" and ex: "exited st = None"
  shows "trap_inv (handler_step i st)"
proof (cases "h_pc (handlers st ! i)")
  case AtLoad1
  then show ?thesis
    using trap_inv_set_pc [OF inv i ex AtLoad1, of AtAdd]
      trap_inv_set_pc [OF inv i ex AtLoad1, of AtExit128]
    by (simp add: handler_step_def)
next
  case AtAdd
  then show ?thesis using trap_inv_add [OF inv i ex AtAdd] by (simp add: handler_step_def)
next
  case AtLoad2
  have c: "trap_inv (st\<lparr>cleanup_called := True\<rparr>)" using inv by (simp add: trap_inv_def)
  from AtLoad2 show ?thesis
    using trap_inv_set_pc [OF c, of i AtLoad2 InCleanup] trap_inv_set_pc [OF inv i ex AtLoad2, of Returned]
      i ex
    by (simp add: handler_step_def)
next
  case InCleanup
  then show ?thesis using inv by (simp add: handler_step_def)
next
  case AtExit0
  then show ?thesis using inv signum_pos by (auto simp: handler_step_def trap_inv_def)
next
  case AtExit128
  have "list_ex forcing (handlers st)"
    if "is_interrupt sig" "signum (h_sig (handlers st ! i)) = signum sig" for sig
  proof -
    from that(2) have "h_sig (handlers st ! i) = sig" by (rule signum_inj)
    with that(1) AtExit128 have "forcing (handlers st ! i)" by (simp add: forcing_def)
    with i show ?thesis by (auto simp: list_ex_iff)
  qed
  with AtExit128 inv show ?thesis by (auto simp: handler_step_def trap_inv_def)
next
  case Returned
  then show ?thesis using inv by (simp add: handler_step_def)
qed

lemma trap_inv_cleanup_returns:
  assumes inv: "trap_inv st" and ex: "exited st = None"
  shows "trap_inv (cleanup_returns st)"
proof -
  let ?f = "\<lambda>h. if h_pc h = InCleanup then h\<lparr>h_pc := AtExit0\<rparr> else h"
  have a: "added (?f h) = added h" for h by (simp add: added_def)
  have fo: "forcing (?f h) = forcing h" for h by (simp add: forcing_def)
  have n: "added \<circ> ?f = added" by (rule ext) (simp add: added_def)
  have e: "list_ex forcing (map ?f hs) = list_ex forcing hs" for hs
    by (induction hs) (simp_all add: forcing_def)
  have w: "list_all well_started hs \<Longrightarrow> list_all well_started (map ?f hs)" for hs
    by (induction hs) (auto simp: well_started_def)
  show ?thesis
    using inv ex w [of "handlers st"]
    by (simp add: trap_inv_def cleanup_returns_def n e)
qed

lemma trap_inv_step:
  assumes "trap_inv st"
  shows "trap_inv (trap_step env st ev)"
proof (cases "exited st = None")
  case False
  with assms show ?thesis by (simp add: trap_step_def)
next
  case True
  show ?thesis
  proof (cases ev)
    case (Deliver sig)
    have "trap_inv (st\<lparr>handlers := handlers st @ [\<lparr>h_sig = sig, h_pc = start_pc sig\<rparr>]\<rparr>)"
      using assms True
      by (auto simp: trap_inv_def start_pc_def added_def forcing_def well_started_def
          is_interrupt_def)
    moreover have "trap_inv (st\<lparr>unhandled := unhandled st @ [sig]\<rparr>)"
      using assms by (simp add: trap_inv_def)
    ultimately show ?thesis using Deliver True by (simp add: trap_step_def)
  next
    case (Step i)
    with assms True trap_inv_handler_step [OF assms _ True, of i] show ?thesis
      by (simp add: trap_step_def)
  next
    case CleanupReturns
    with True trap_inv_cleanup_returns [OF assms True] show ?thesis
      by (simp add: trap_step_def)
  qed
qed

lemma trap_inv_run: "trap_inv (trap_run env evs)"
proof -
  have "trap_inv st \<Longrightarrow> trap_inv (foldl (trap_step env) st evs)" for st
    by (induction evs arbitrary: st) (simp_all add: trap_inv_step)
  then show ?thesis by (simp add: trap_run_def trap_inv_init)
qed

lemma n_interrupt_step:
  "n_interrupt (handlers (trap_step env st ev))
     \<le> n_interrupt (handlers st) + (if is_interrupt_received ev then 1 else 0)"
proof (cases "exited st = None")
  case False
  then show ?thesis by (simp add: trap_step_def)
next
  case True
  show ?thesis
  proof (cases ev)
    case (Deliver sig)
    with True show ?thesis by (simp add: trap_step_def n_interrupt_def)
  next
    case (Step i)
    show ?thesis
    proof (cases "i < length (handlers st)")
      case False
      with Step True show ?thesis by (simp add: trap_step_def)
    next
      case i: True
      have sp: "n_interrupt (handlers (set_pc i q s)) = n_interrupt (handlers s)"
        if "i < length (handlers s)" for q s
        using filter_update_count [OF that, of "\<lambda>h. is_interrupt (h_sig h)"
            "(handlers s ! i)\<lparr>h_pc := q\<rparr>"]
        by (simp add: n_interrupt_def set_pc_def split: if_splits)
      have "n_interrupt (handlers (handler_step i st)) = n_interrupt (handlers st)"
        using i sp [of st] sp [of "st\<lparr>interruptCount := interruptCount st + 1\<rparr>"]
          sp [of "st\<lparr>cleanup_called := True\<rparr>"]
        by (cases "h_pc (handlers st ! i)") (simp_all add: handler_step_def)
      with Step True i show ?thesis by (simp add: trap_step_def)
    qed
  next
    case CleanupReturns
    have c: "(\<lambda>h. is_interrupt (h_sig h))
            \<circ> (\<lambda>h. if h_pc h = InCleanup then h\<lparr>h_pc := AtExit0\<rparr> else h)
          = (\<lambda>h. is_interrupt (h_sig h))"
      by (rule ext) simp
    have "n_interrupt (handlers (cleanup_returns st)) = n_interrupt (handlers st)"
      by (simp add: n_interrupt_def cleanup_returns_def c)
    with CleanupReturns True show ?thesis by (simp add: trap_step_def)
  qed
qed

lemma n_interrupt_run:
  "n_interrupt (handlers (trap_run env evs)) \<le> interrupts_received evs"
proof -
  have "n_interrupt (handlers (foldl (trap_step env) st evs))
          \<le> n_interrupt (handlers st) + interrupts_received evs" for st
  proof (induction evs arbitrary: st)
    case Nil
    then show ?case by (simp add: interrupts_received_def)
  next
    case (Cons ev evs)
    from Cons [of "trap_step env st ev"] n_interrupt_step [of env st ev]
    show ?case by (simp add: interrupts_received_def split: if_splits)
  qed
  from this [of trap_init] show ?thesis
    by (simp add: trap_run_def trap_init_def n_interrupt_def)
qed

lemma disjoint_counts:
  "list_all well_started hs \<Longrightarrow>
   length (filter added hs) + length (filter forcing hs) \<le> n_interrupt hs"
  by (induction hs) (auto simp: well_started_def added_def forcing_def n_interrupt_def)

lemma list_ex_count: "list_ex P xs \<Longrightarrow> 1 \<le> length (filter P xs)"
  by (induction xs) auto

lemma forced_exit_needs_four:
  assumes "is_interrupt sig" and "exited (trap_run env evs) = Some (128 + signum sig)"
  shows "4 \<le> interrupts_received evs"
proof -
  let ?st = "trap_run env evs"
  have inv: "trap_inv ?st" by (rule trap_inv_run)
  with assms have fo: "list_ex forcing (handlers ?st)" by (auto simp: trap_inv_def)
  with inv have "3 \<le> length (filter added (handlers ?st))" by (simp add: trap_inv_def)
  moreover from fo have "1 \<le> length (filter forcing (handlers ?st))" by (rule list_ex_count)
  moreover from inv have "length (filter added (handlers ?st))
      + length (filter forcing (handlers ?st)) \<le> n_interrupt (handlers ?st)"
    by (intro disjoint_counts) (simp add: trap_inv_def)
  ultimately have "4 \<le> n_interrupt (handlers ?st)" by arith
  with n_interrupt_run [of env evs] show ?thesis by arith
qed

subsection \<open>Runs with interleaved handlers\<close>

lemma trap_interleaved_runs:
  "trap_run Map.empty interleaved_first
     = trap_init\<lparr>interruptCount := 2,
         handlers := [\<lparr>h_sig = SIGINT, h_pc = Returned\<rparr>, \<lparr>h_sig = SIGINT, h_pc = Returned\<rparr>]\<rparr>"
  "trap_run Map.empty interleaved_later
     = trap_init\<lparr>interruptCount := 4,
         handlers := [\<lparr>h_sig = SIGINT, h_pc = InCleanup\<rparr>, \<lparr>h_sig = SIGTERM, h_pc = Returned\<rparr>,
            \<lparr>h_sig = SIGTERM, h_pc = Returned\<rparr>, \<lparr>h_sig = SIGTERM, h_pc = Returned\<rparr>],
         cleanup_called := True\<rparr>"
  unfolding interleaved_first_def interleaved_later_def one_at_a_time_def seq_from.simps
    numeral_2_eq_2 numeral_3_eq_3 One_nat_def
  by (simp_all add: trap_run_def trap_step_def trap_init_def trap_signals_def
      Getenv_def handler_step_def set_pc_def start_pc_def)

lemma interleaved_received:
  "interrupts_received interleaved_first = 2" "interrupts_received interleaved_later = 4"
  by (simp_all add: interrupts_received_def interleaved_first_def interleaved_later_def
      one_at_a_time_def is_interrupt_def)




subsection \<open>SIGQUIT\<close>

lemma quit_handler_step:
  assumes "i < length (handlers st)" and "handlers st ! i = quit_handler"
  shows "i < length (handlers (trap_step env st ev))
     \<and> handlers (trap_step env st ev) ! i = quit_handler"
proof (cases "exited st = None")
  case False
  with assms show ?thesis by (simp add: trap_step_def)
next
  case True
  show ?thesis
  proof (cases ev)
    case (Deliver sig)
    with True assms show ?thesis by (simp add: trap_step_def nth_append)
  next
    case (Step j)
    have sp: "i < length (handlers (set_pc j q s)) \<and> handlers (set_pc j q s) ! i = quit_handler"
      if "handlers s = handlers st" "j \<noteq> i" for q s
      using that assms by (simp add: set_pc_def)
    show ?thesis
    proof (cases "j = i")
      case True
      with Step assms show ?thesis
        by (simp add: trap_step_def handler_step_def quit_handler_def)
    next
      case False
      have "i < length (handlers (handler_step j st))
          \<and> handlers (handler_step j st) ! i = quit_handler"
        using assms sp [OF _ False, of st] sp [OF _ False, of "st\<lparr>interruptCount := interruptCount st + 1\<rparr>"]
          sp [OF _ False, of "st\<lparr>cleanup_called := True\<rparr>"]
        by (cases "h_pc (handlers st ! j)") (simp_all add: handler_step_def)
      with Step assms show ?thesis by (simp add: trap_step_def)
    qed
  next
    case CleanupReturns
    with True assms show ?thesis
      by (simp add: trap_step_def cleanup_returns_def quit_handler_def)
  qed
qed

lemma quit_handler_stays:
  assumes "i < length (handlers st)" and "handlers st ! i = quit_handler"
  shows "i < length (handlers (foldl (trap_step env) st evs))
     \<and> handlers (foldl (trap_step env) st evs) ! i = quit_handler"
  using assms
proof (induction evs arbitrary: st)
  case Nil
  then show ?case by simp
next
  case (Cons ev evs)
  from quit_handler_step [OF Cons.prems, of env ev] Cons.IH [of "trap_step env st ev"]
  show ?case by simp
qed

lemma quit_handler_exits:
  assumes "i < length (handlers st)" and "handlers st ! i = quit_handler" and "exited st = None"
  shows "trap_step env st (Step i) = st\<lparr>exited := Some 131\<rparr>"
  using assms by (simp add: trap_step_def handler_step_def quit_handler_def)


lemma cleanup_started:
  "trap_run Map.empty (one_at_a_time [SIGINT]) =
     trap_init\<lparr>interruptCount := 1, handlers := [\<lparr>h_sig = SIGINT, h_pc = InCleanup\<rparr>],
       cleanup_called := True\<rparr>"
  by (simp add: trap_run_def one_at_a_time_def trap_step_def trap_init_def trap_signals_def
      Getenv_def handler_step_def set_pc_def start_pc_def)



section \<open>Properties of the bridge driver's handlers\<close>

lemma foldl_unmap_calls:
  "calls (foldl (unmap_one sv) d ms) = calls d @ map CallUnmap ms"
  by (induction ms arbitrary: d) (simp_all add: unmap_one_def Let_def split: option.splits)

lemma foldl_unmap_ifaces:
  "currentInterfaces (foldl (unmap_one sv) d ms) = currentInterfaces d"
  by (induction ms arbitrary: d) (simp_all add: unmap_one_def Let_def split: option.splits)

lemma foldl_unmap_network:
  "bridgeNetwork (foldl (unmap_one sv) d ms) = bridgeNetwork d"
  by (induction ms arbitrary: d) (simp_all add: unmap_one_def Let_def split: option.splits)

lemma release_ip_fields:
  "calls (release_ip sv ip d) = calls d @ [CallReleaseIP (bridgeNetwork d) ip]"
  "currentInterfaces (release_ip sv ip d) = currentInterfaces d"
  "bridgeNetwork (release_ip sv ip d) = bridgeNetwork d"
  by (simp_all add: release_ip_def Let_def split: option.splits)

lemma Release_once:
  assumes "ifaces_Get d cid = Some ci"
  shows "\<exists>d'. Release sv (cid # rest) d = Inr (StatusOK, d')
     \<and> calls d' = calls d @ release_calls d ci
     \<and> currentInterfaces d' = currentInterfaces d \<and> bridgeNetwork d' = bridgeNetwork d"
  using assms
  by (simp add: Release_def release_ip_fields foldl_unmap_calls foldl_unmap_ifaces foldl_unmap_network release_calls_def)

text \<open>
  Claim C4, as the code has it. For an id with no record \<^verbatim>\<open>Release\<close> returns an error
  status and changes nothing. For an id with a record it asks for every port mapping
  of the record to be unmapped and for the IP to be released (errors are logged only),
  and returns \<^verbatim>\<open>StatusOK\<close>; the record stays in \<^verbatim>\<open>currentInterfaces\<close>, there being no
  operation that removes one. A second call therefore finds the same record, makes the
  same calls again and returns \<^verbatim>\<open>StatusOK\<close> again.
\<close>

theorem Release_keeps_record:
  "(case ifaces_Get d cid of
      None \<Rightarrow> Release sv (cid # rest) d = Inr (StatusErr (NoNetworkInformation cid), d)
    | Some ci \<Rightarrow>
       (\<exists>d' d''. Release sv (cid # rest) d = Inr (StatusOK, d')
          \<and> calls d' = calls d @ release_calls d ci
          \<and> ifaces_Get d' cid = Some ci
          \<and> Release sv (cid # rest) d' = Inr (StatusOK, d'')
          \<and> calls d'' = calls d' @ release_calls d ci
          \<and> ifaces_Get d'' cid = Some ci))"
proof (cases "ifaces_Get d cid")
  case None
  then show ?thesis by (simp add: Release_def)
next
  case (Some ci)
  from Release_once [OF Some, of sv rest] obtain d' where
    1: "Release sv (cid # rest) d = Inr (StatusOK, d')"
       "calls d' = calls d @ release_calls d ci"
       "currentInterfaces d' = currentInterfaces d" "bridgeNetwork d' = bridgeNetwork d"
    by blast
  then have g: "ifaces_Get d' cid = Some ci" using Some by (simp add: ifaces_Get_def)
  from Release_once [OF g, of sv rest] obtain d'' where
    2: "Release sv (cid # rest) d' = Inr (StatusOK, d'')"
       "calls d'' = calls d' @ release_calls d' ci"
       "currentInterfaces d'' = currentInterfaces d'"
    by blast
  have "release_calls d' ci = release_calls d ci" using 1 by (simp add: release_calls_def)
  moreover have "ifaces_Get d'' cid = Some ci" using 2 g by (simp add: ifaces_Get_def)
  ultimately show ?thesis using Some 1 2 g by auto
qed

text \<open>
  Claim C4 as stated fails: after \<^verbatim>\<open>release_interface\<close> for \<open>c1\<close> the record of \<open>c1\<close> is
  still in \<^verbatim>\<open>currentInterfaces\<close>, and a second call is not a no-op: it asks again for
  the port to be unmapped (here the port mapper refuses, which is logged) and for the
  IP to be released.
\<close>

theorem Release_keeps_record_counterexample:
  "Release (example_services 0) [''c1''] example_driver =
     Inr (StatusOK, example_driver\<lparr>calls :=
       [CallUnmap (TCPAddr ''0.0.0.0'' 8080), CallReleaseIP ''172.17.42.1/16'' ''172.17.0.2'']\<rparr>)
   \<and> ifaces_Get (example_driver\<lparr>calls :=
       [CallUnmap (TCPAddr ''0.0.0.0'' 8080), CallReleaseIP ''172.17.42.1/16'' ''172.17.0.2'']\<rparr>)
       ''c1'' = Some \<lparr>IP = ''172.17.0.2'', PortMappings = [TCPAddr ''0.0.0.0'' 8080]\<rparr>
   \<and> Release (example_services 0) [''c1''] (example_driver\<lparr>calls :=
       [CallUnmap (TCPAddr ''0.0.0.0'' 8080), CallReleaseIP ''172.17.42.1/16'' ''172.17.0.2'']\<rparr>) =
     Inr (StatusOK, example_driver\<lparr>calls :=
       [CallUnmap (TCPAddr ''0.0.0.0'' 8080), CallReleaseIP ''172.17.42.1/16'' ''172.17.0.2'',
        CallUnmap (TCPAddr ''0.0.0.0'' 8080), CallReleaseIP ''172.17.42.1/16'' ''172.17.0.2''],
       logged := [UnableToUnmapPort (TCPAddr ''0.0.0.0'' 8080) ''port is not mapped'']\<rparr>)"
  by (simp add: Release_def example_driver_def example_services_def ifaces_Get_def
      unmap_one_def release_ip_def)

text \<open>
  Claim C10. When the handler is called for a container id that has no record, what it
  does depends on the protocol only: for \<open>tcp\<close> and \<open>udp\<close>, the two protocols for
  which it builds a container address, it reads \<^verbatim>\<open>network.IP\<close> through the nil record
  and panics instead of returning an error status; for any other protocol no container
  address is built, and the \<^verbatim>\<open>default\<close> case returns the error status
  \<^verbatim>\<open>unsupported address type\<close>.
\<close>

theorem AllocatePort_nil:
  assumes "ifaces_Get d cid = None" and "Args job = cid # rest"
  shows "AllocatePort sv job d =
     (if Proto job = ''tcp'' \<or> Proto job = ''udp'' then Inl NilPointerDereference
      else Inr (StatusErr (UnsupportedAddressType (Proto job)), d, []))"
  using assms by (simp add: AllocatePort_def)

theorem AllocatePort_nil_witness:
  "ifaces_Get example_driver ''c2'' = None
   \<and> AllocatePort (example_services 0) ((example_job 0)\<lparr>Args := [''c2'']\<rparr>) example_driver
       = Inl NilPointerDereference"
proof -
  have h: "ifaces_Get example_driver ''c2'' = None"
    by (simp add: ifaces_Get_def example_driver_def)
  have a: "Args ((example_job 0)\<lparr>Args := [''c2'']\<rparr>) = ''c2'' # []" by simp
  show ?thesis
    using h AllocatePort_nil [OF h a, of "example_services 0"] by (simp add: example_job_def)
qed

lemma attempt_Suc:
  "attempt sv (h @ [CallMap c ip hp]) c ip hp j = attempt sv h c ip hp (Suc j)"
  by (simp add: attempt_def replicate_app_Cons_same)

lemma map_loop_ifaces:
  "currentInterfaces (snd (map_loop sv c ip hp n he d)) = currentInterfaces d"
  by (induction n arbitrary: he d)
     (auto simp: Let_def split: sum.splits map_error.splits)

lemma map_loop_calls_bound:
  "\<exists>k\<le>n. calls (snd (map_loop sv c ip hp n he d)) = calls d @ replicate k (CallMap c ip hp)
      \<and> (0 < n \<longrightarrow> 0 < k)"
proof (induction n arbitrary: he d)
  case 0
  then show ?case by simp
next
  case (Suc n)
  let ?call = "CallMap c ip hp"
  let ?d1 = "d\<lparr>calls := calls d @ [?call]\<rparr>"
  show ?case
  proof (cases "portmapper_Map sv (calls d) c ip hp")
    case (Inr host)
    then have "calls (snd (map_loop sv c ip hp (Suc n) he d)) = calls d @ replicate 1 ?call"
      by (simp add: Let_def)
    then show ?thesis by (intro exI [of _ 1]) simp
  next
    case (Inl e)
    show ?thesis
    proof (cases e)
      case (OtherMapError msg)
      with Inl have "calls (snd (map_loop sv c ip hp (Suc n) he d)) = calls d @ replicate 1 ?call"
        by (simp add: Let_def)
      then show ?thesis by (intro exI [of _ 1]) simp
    next
      case (ErrPortAlreadyAllocated x)
      show ?thesis
      proof (cases "hp = 0")
        case False
        with Inl ErrPortAlreadyAllocated
        have "calls (snd (map_loop sv c ip hp (Suc n) he d)) = calls d @ replicate 1 ?call"
          by (simp add: Let_def)
        then show ?thesis by (intro exI [of _ 1]) simp
      next
        case True
        let ?d2 = "?d1\<lparr>logged := logged ?d1 @ [FailedToBindTryingAnother x c]\<rparr>"
        let ?he = "(NilAddr, Some (ErrPortAlreadyAllocated x))"
        from Suc.IH [of ?he ?d2] obtain k where
          k: "k \<le> n" "calls (snd (map_loop sv c ip hp n ?he ?d2)) = calls ?d2 @ replicate k ?call"
          by blast
        have "map_loop sv c ip hp (Suc n) he d = map_loop sv c ip hp n ?he ?d2"
          using Inl ErrPortAlreadyAllocated True by (simp add: Let_def)
        with k have "calls (snd (map_loop sv c ip hp (Suc n) he d)) = calls d @ replicate (Suc k) ?call"
          by (simp add: replicate_app_Cons_same)
        with k show ?thesis by (intro exI [of _ "Suc k"]) simp
      qed
    qed
  qed
qed

lemma map_loop_all_fail:
  assumes "\<forall>j<n. is_allocated_err (attempt sv (calls d) c ip 0 j)" and "0 < n"
  shows "\<exists>x. attempt sv (calls d) c ip 0 (n - 1) = Inl (ErrPortAlreadyAllocated x)
     \<and> fst (map_loop sv c ip 0 n he d) = (NilAddr, Some (ErrPortAlreadyAllocated x))
     \<and> calls (snd (map_loop sv c ip 0 n he d)) = calls d @ replicate n (CallMap c ip 0)"
  using assms
proof (induction n arbitrary: he d)
  case 0
  then show ?case by simp
next
  case (Suc n)
  let ?call = "CallMap c ip 0"
  from Suc.prems have "is_allocated_err (attempt sv (calls d) c ip 0 0)" by blast
  then obtain x where x: "portmapper_Map sv (calls d) c ip 0 = Inl (ErrPortAlreadyAllocated x)"
    by (auto simp: is_allocated_err_def attempt_def split: sum.splits map_error.splits)
  let ?d1 = "d\<lparr>calls := calls d @ [?call]\<rparr>"
  let ?d2 = "?d1\<lparr>logged := logged ?d1 @ [FailedToBindTryingAnother x c]\<rparr>"
  let ?he = "(NilAddr, Some (ErrPortAlreadyAllocated x))"
  have step: "map_loop sv c ip 0 (Suc n) he d = map_loop sv c ip 0 n ?he ?d2"
    using x by (simp add: Let_def)
  show ?case
  proof (cases n)
    case 0
    with step x show ?thesis by (simp add: attempt_def)
  next
    case (Suc m)
    have "\<forall>j<n. is_allocated_err (attempt sv (calls ?d2) c ip 0 j)"
      using Suc.prems(1) by (simp add: attempt_Suc)
    from Suc.IH [OF this, of ?he] Suc obtain y where
      y: "attempt sv (calls ?d2) c ip 0 (n - 1) = Inl (ErrPortAlreadyAllocated y)"
         "fst (map_loop sv c ip 0 n ?he ?d2) = (NilAddr, Some (ErrPortAlreadyAllocated y))"
         "calls (snd (map_loop sv c ip 0 n ?he ?d2)) = calls ?d2 @ replicate n ?call"
      by auto
    from y(1) Suc have "attempt sv (calls d) c ip 0 (Suc n - 1) = Inl (ErrPortAlreadyAllocated y)"
      by (simp add: attempt_Suc)
    with y step show ?thesis by (simp add: replicate_app_Cons_same)
  qed
qed

lemma map_loop_success_after:
  assumes "\<forall>j<k. is_allocated_err (attempt sv (calls d) c ip 0 j)"
    and "attempt sv (calls d) c ip 0 k = Inr host" and "k < n"
  shows "fst (map_loop sv c ip 0 n he d) = (host, None)
     \<and> calls (snd (map_loop sv c ip 0 n he d)) = calls d @ replicate (Suc k) (CallMap c ip 0)"
  using assms
proof (induction k arbitrary: n he d)
  case 0
  then obtain m where "n = Suc m" by (cases n) auto
  with 0 show ?case by (simp add: attempt_def Let_def)
next
  case (Suc k)
  let ?call = "CallMap c ip 0"
  from Suc.prems obtain m where m: "n = Suc m" "k < m" by (cases n) auto
  from Suc.prems have "is_allocated_err (attempt sv (calls d) c ip 0 0)" by blast
  then obtain x where x: "portmapper_Map sv (calls d) c ip 0 = Inl (ErrPortAlreadyAllocated x)"
    by (auto simp: is_allocated_err_def attempt_def split: sum.splits map_error.splits)
  let ?d1 = "d\<lparr>calls := calls d @ [?call]\<rparr>"
  let ?d2 = "?d1\<lparr>logged := logged ?d1 @ [FailedToBindTryingAnother x c]\<rparr>"
  let ?he = "(NilAddr, Some (ErrPortAlreadyAllocated x))"
  have step: "map_loop sv c ip 0 n he d = map_loop sv c ip 0 m ?he ?d2"
    using x m by (simp add: Let_def)
  have a: "\<forall>j<k. is_allocated_err (attempt sv (calls ?d2) c ip 0 j)"
    using Suc.prems(1) by (simp add: attempt_Suc)
  have b: "attempt sv (calls ?d2) c ip 0 k = Inr host"
    using Suc.prems(2) by (simp add: attempt_Suc)
  from Suc.IH [OF a b m(2), of ?he] step show ?case
    by (simp add: replicate_app_Cons_same)
qed

lemma map_loop_explicit:
  assumes "hp \<noteq> 0" and "portmapper_Map sv (calls d) c ip hp = Inl (ErrPortAlreadyAllocated x)"
  shows "fst (map_loop sv c ip hp (Suc n) he d) = (NilAddr, Some (ErrPortAlreadyAllocated x))
     \<and> calls (snd (map_loop sv c ip hp (Suc n) he d)) = calls d @ [CallMap c ip hp]"
  using assms by (simp add: Let_def)


lemma map_calls_append:
  "calls d' = calls d @ replicate k (CallMap c ip hp) \<Longrightarrow> map_calls d' = map_calls d + k"
  by (simp add: map_calls_def)

lemma allocate_mapped_result:
  assumes "map_loop sv c ip (HostPort job) MaxAllocatedPortAttempts (NilAddr, None) d
             = ((host, err), d1)"
  shows "allocate_mapped sv job cid nw ip c d =
     (case err of
        Some e \<Rightarrow> (StatusErr (MapFailed e), d1, [])
      | None \<Rightarrow>
          (if StdoutOk job then StatusOK else StatusErr StdoutWriteFailed,
           ifaces_Set cid (nw\<lparr>PortMappings := PortMappings nw @ [host]\<rparr>) d1,
           if StdoutOk job then host_out host else []))"
  using assms by (simp add: allocate_mapped_def Let_def split: option.splits)

lemma AllocatePort_reaches_loop:
  assumes "Args job = cid # rest" and "ifaces_Get d cid = Some nw"
    and "Proto job = ''tcp'' \<and> c = TCPAddr (IP nw) (ContainerPort job)
         \<or> Proto job = ''udp'' \<and> c = UDPAddr (IP nw) (ContainerPort job)"
    and "ip = (if HostIP job \<noteq> [] then ParseIP sv (HostIP job) else defaultBindingIP d)"
  shows "AllocatePort sv job d = Inr (allocate_mapped sv job cid nw ip c d)"
  using assms by (auto simp: AllocatePort_def Let_def)

text \<open>
  Claim C5. Take a job for a container that has a record, with protocol \<open>tcp\<close> or \<open>udp\<close>,
  so that the handler reaches the loop; \<open>c\<close> is the container address and \<open>ip\<close> the host
  address it passes to \<^verbatim>\<open>portmapper.Map\<close>. The handler returns, after at least one and
  at most 10 calls of \<^verbatim>\<open>Map\<close>. With host port 0: if all 10 calls report the port as
  allocated, the handler has made exactly 10 calls and returns that error, the record
  unchanged; if the first \<open>k < 10\<close> calls report it and the next one succeeds, the
  handler has made \<open>k + 1\<close> calls and appends the mapped host address to the record.
  With an explicit host port, a first call that reports the port as allocated is the
  only call: the error is returned with no retry.
\<close>

theorem AllocatePort_retries:
  assumes args: "Args job = cid # rest"
    and rec: "ifaces_Get d cid = Some nw"
    and proto: "Proto job = ''tcp'' \<and> c = TCPAddr (IP nw) (ContainerPort job)
         \<or> Proto job = ''udp'' \<and> c = UDPAddr (IP nw) (ContainerPort job)"
    and ip: "ip = (if HostIP job \<noteq> [] then ParseIP sv (HostIP job) else defaultBindingIP d)"
  shows "\<exists>st d' out. AllocatePort sv job d = Inr (st, d', out)
     \<and> map_calls d < map_calls d' \<and> map_calls d' \<le> map_calls d + 10
     \<and> (HostPort job = 0 \<and> (\<forall>j<10. is_allocated_err (attempt sv (calls d) c ip 0 j)) \<longrightarrow>
          calls d' = calls d @ replicate 10 (CallMap c ip 0)
          \<and> (\<exists>x. attempt sv (calls d) c ip 0 9 = Inl (ErrPortAlreadyAllocated x)
                \<and> st = StatusErr (MapFailed (ErrPortAlreadyAllocated x)))
          \<and> ifaces_Get d' cid = Some nw)
     \<and> (\<forall>x. HostPort job \<noteq> 0
            \<and> attempt sv (calls d) c ip (HostPort job) 0 = Inl (ErrPortAlreadyAllocated x) \<longrightarrow>
          calls d' = calls d @ [CallMap c ip (HostPort job)]
          \<and> st = StatusErr (MapFailed (ErrPortAlreadyAllocated x))
          \<and> ifaces_Get d' cid = Some nw)
     \<and> (\<forall>k host. HostPort job = 0 \<and> k < 10
            \<and> (\<forall>j<k. is_allocated_err (attempt sv (calls d) c ip 0 j))
            \<and> attempt sv (calls d) c ip 0 k = Inr host \<longrightarrow>
          calls d' = calls d @ replicate (Suc k) (CallMap c ip 0)
          \<and> st = (if StdoutOk job then StatusOK else StatusErr StdoutWriteFailed)
          \<and> ifaces_Get d' cid = Some (nw\<lparr>PortMappings := PortMappings nw @ [host]\<rparr>))"
proof -
  let ?hp = "HostPort job"
  let ?ml = "map_loop sv c ip ?hp MaxAllocatedPortAttempts (NilAddr, None) d"
  obtain host err d1 where ml: "?ml = ((host, err), d1)"
    by (metis surj_pair)
  define res where "res = allocate_mapped sv job cid nw ip c d"
  obtain st d' out where res: "res = (st, d', out)"
    by (metis surj_pair)
  have ap: "AllocatePort sv job d = Inr (st, d', out)"
    using AllocatePort_reaches_loop [OF args rec proto ip] res by (simp add: res_def)
  have am: "(st, d', out) =
     (case err of
        Some e \<Rightarrow> (StatusErr (MapFailed e), d1, [])
      | None \<Rightarrow>
          (if StdoutOk job then StatusOK else StatusErr StdoutWriteFailed,
           ifaces_Set cid (nw\<lparr>PortMappings := PortMappings nw @ [host]\<rparr>) d1,
           if StdoutOk job then host_out host else []))"
    using allocate_mapped_result [OF ml] res by (simp add: res_def)
  have calls': "calls d' = calls d1"
    using am by (auto simp: ifaces_Set_def split: option.splits)
  have d1: "d1 = snd ?ml" and he: "(host, err) = fst ?ml"
    using ml by simp_all
  have if1: "currentInterfaces d1 = currentInterfaces d"
    using d1 map_loop_ifaces by simp
  have st_err: "\<And>e. err = Some e \<Longrightarrow> st = StatusErr (MapFailed e) \<and> ifaces_Get d' cid = Some nw"
    using am if1 rec by (auto simp: ifaces_Get_def)
  have st_ok: "err = None \<Longrightarrow>
      st = (if StdoutOk job then StatusOK else StatusErr StdoutWriteFailed)
      \<and> ifaces_Get d' cid = Some (nw\<lparr>PortMappings := PortMappings nw @ [host]\<rparr>)"
    using am by (auto simp: ifaces_Get_def ifaces_Set_def)
  from map_loop_calls_bound [of MaxAllocatedPortAttempts sv c ip ?hp "(NilAddr, None)" d]
  obtain k where k: "k \<le> 10" "0 < k" "calls d1 = calls d @ replicate k (CallMap c ip ?hp)"
    using d1 by (auto simp: MaxAllocatedPortAttempts_def)
  have bound: "map_calls d < map_calls d' \<and> map_calls d' \<le> map_calls d + 10"
    using k calls' map_calls_append [of d' d k c ip ?hp] by simp
  have allfail: "calls d' = calls d @ replicate 10 (CallMap c ip 0)
          \<and> (\<exists>x. attempt sv (calls d) c ip 0 9 = Inl (ErrPortAlreadyAllocated x)
                \<and> st = StatusErr (MapFailed (ErrPortAlreadyAllocated x)))
          \<and> ifaces_Get d' cid = Some nw"
    if a: "HostPort job = 0" "\<forall>j<10. is_allocated_err (attempt sv (calls d) c ip 0 j)"
  proof -
    from map_loop_all_fail [of 10 sv d c ip "(NilAddr, None)"] a(2) obtain x where
      "attempt sv (calls d) c ip 0 9 = Inl (ErrPortAlreadyAllocated x)"
      "fst (map_loop sv c ip 0 10 (NilAddr, None) d) = (NilAddr, Some (ErrPortAlreadyAllocated x))"
      "calls (snd (map_loop sv c ip 0 10 (NilAddr, None) d)) = calls d @ replicate 10 (CallMap c ip 0)"
      by auto
    with a(1) ml have "err = Some (ErrPortAlreadyAllocated x)"
        "calls d1 = calls d @ replicate 10 (CallMap c ip 0)"
        "attempt sv (calls d) c ip 0 9 = Inl (ErrPortAlreadyAllocated x)"
      by (simp_all add: MaxAllocatedPortAttempts_def)
    with st_err calls' show ?thesis by simp
  qed
  have explicit: "calls d' = calls d @ [CallMap c ip (HostPort job)]
          \<and> st = StatusErr (MapFailed (ErrPortAlreadyAllocated x))
          \<and> ifaces_Get d' cid = Some nw"
    if a: "HostPort job \<noteq> 0"
      "attempt sv (calls d) c ip (HostPort job) 0 = Inl (ErrPortAlreadyAllocated x)" for x
  proof -
    from a(2) have "portmapper_Map sv (calls d) c ip ?hp = Inl (ErrPortAlreadyAllocated x)"
      by (simp add: attempt_def)
    from map_loop_explicit [OF a(1) this, of 9 "(NilAddr, None)"] ml
    have "err = Some (ErrPortAlreadyAllocated x)" "calls d1 = calls d @ [CallMap c ip ?hp]"
      by (simp_all add: MaxAllocatedPortAttempts_def)
    with st_err calls' show ?thesis by simp
  qed
  have success: "calls d' = calls d @ replicate (Suc k) (CallMap c ip 0)
          \<and> st = (if StdoutOk job then StatusOK else StatusErr StdoutWriteFailed)
          \<and> ifaces_Get d' cid = Some (nw\<lparr>PortMappings := PortMappings nw @ [h]\<rparr>)"
    if a: "HostPort job = 0" "k < 10"
      "\<forall>j<k. is_allocated_err (attempt sv (calls d) c ip 0 j)"
      "attempt sv (calls d) c ip 0 k = Inr h" for k h
  proof -
    from map_loop_success_after [OF a(3) a(4) a(2), of "(NilAddr, None)"] a(1) ml
    have "err = None" "host = h" "calls d1 = calls d @ replicate (Suc k) (CallMap c ip 0)"
      by (simp_all add: MaxAllocatedPortAttempts_def)
    with st_ok calls' show ?thesis by simp
  qed
  show ?thesis
    using ap bound allfail explicit success by blast
qed


lemma example_attempt:
  "attempt (example_services k) [] c ip hp j =
     (if j < k then Inl (ErrPortAlreadyAllocated ''0.0.0.0:49153'')
      else Inr (case c of
                     UDPAddr cip cport \<Rightarrow> UDPAddr ''0.0.0.0'' (if hp = 0 then 49153 else hp)
                   | TCPAddr cip cport \<Rightarrow> TCPAddr ''0.0.0.0'' (if hp = 0 then 49153 else hp)
                   | NilAddr \<Rightarrow> NilAddr))"
  by (simp add: attempt_def example_services_def)

theorem AllocatePort_retries_witness:
  "(\<exists>st d' out. AllocatePort (example_services 10) (example_job 0) example_driver = Inr (st, d', out)
      \<and> calls d' = replicate 10 (CallMap (TCPAddr ''172.17.0.2'' 80) (Some ''0.0.0.0'') 0)
      \<and> st = StatusErr (MapFailed (ErrPortAlreadyAllocated ''0.0.0.0:49153'')))
   \<and> (\<exists>st d' out. AllocatePort (example_services 1) (example_job 8080) example_driver = Inr (st, d', out)
      \<and> calls d' = [CallMap (TCPAddr ''172.17.0.2'' 80) (Some ''0.0.0.0'') 8080]
      \<and> st = StatusErr (MapFailed (ErrPortAlreadyAllocated ''0.0.0.0:49153'')))
   \<and> (\<exists>st d' out. AllocatePort (example_services 2) (example_job 0) example_driver = Inr (st, d', out)
      \<and> calls d' = replicate 3 (CallMap (TCPAddr ''172.17.0.2'' 80) (Some ''0.0.0.0'') 0)
      \<and> st = StatusOK
      \<and> ifaces_Get d' ''c1'' = Some \<lparr>IP = ''172.17.0.2'',
           PortMappings = [TCPAddr ''0.0.0.0'' 8080, TCPAddr ''0.0.0.0'' 49153]\<rparr>)"
proof -
  let ?nw = "\<lparr>IP = ''172.17.0.2'', PortMappings = [TCPAddr ''0.0.0.0'' 8080]\<rparr>"
  let ?c = "TCPAddr ''172.17.0.2'' 80"
  let ?ip = "Some ''0.0.0.0''"
  have args: "Args (example_job hp) = ''c1'' # []" for hp
    by (simp add: example_job_def)
  have rec: "ifaces_Get example_driver ''c1'' = Some ?nw"
    by (simp add: ifaces_Get_def example_driver_def)
  have proto: "Proto (example_job hp) = ''tcp'' \<and> ?c = TCPAddr (IP ?nw) (ContainerPort (example_job hp))
      \<or> Proto (example_job hp) = ''udp'' \<and> ?c = UDPAddr (IP ?nw) (ContainerPort (example_job hp))" for hp
    by (simp add: example_job_def)
  have ip: "?ip = (if HostIP (example_job hp) \<noteq> [] then ParseIP (example_services k) (HostIP (example_job hp))
      else defaultBindingIP example_driver)" for hp k
    by (simp add: example_job_def example_driver_def)
  have c0: "calls example_driver = []" by (simp add: example_driver_def)
  have hp: "HostPort (example_job hp) = hp" "StdoutOk (example_job hp)" for hp
    by (simp_all add: example_job_def)
  have 1: "\<exists>st d' out. AllocatePort (example_services 10) (example_job 0) example_driver = Inr (st, d', out)
      \<and> calls d' = replicate 10 (CallMap ?c ?ip 0)
      \<and> st = StatusErr (MapFailed (ErrPortAlreadyAllocated ''0.0.0.0:49153''))"
  proof -
    from AllocatePort_retries [OF args [of 0] rec proto [of 0] ip [of 0 10]]
    obtain st d' out where
      r: "AllocatePort (example_services 10) (example_job 0) example_driver = Inr (st, d', out)"
      and a: "HostPort (example_job 0) = 0 \<and>
         (\<forall>j<10. is_allocated_err (attempt (example_services 10) (calls example_driver) ?c ?ip 0 j)) \<longrightarrow>
          calls d' = calls example_driver @ replicate 10 (CallMap ?c ?ip 0)
          \<and> (\<exists>x. attempt (example_services 10) (calls example_driver) ?c ?ip 0 9
                   = Inl (ErrPortAlreadyAllocated x)
                \<and> st = StatusErr (MapFailed (ErrPortAlreadyAllocated x)))
          \<and> ifaces_Get d' ''c1'' = Some ?nw"
      by blast
    have "\<forall>j<10. is_allocated_err (attempt (example_services 10) (calls example_driver) ?c ?ip 0 j)"
      by (simp add: c0 example_attempt is_allocated_err_def)
    with a hp have "calls d' = replicate 10 (CallMap ?c ?ip 0)"
      and "st = StatusErr (MapFailed (ErrPortAlreadyAllocated ''0.0.0.0:49153''))"
      by (auto simp: c0 example_attempt)
    with r show ?thesis by blast
  qed
  have 2: "\<exists>st d' out. AllocatePort (example_services 1) (example_job 8080) example_driver = Inr (st, d', out)
      \<and> calls d' = [CallMap ?c ?ip 8080]
      \<and> st = StatusErr (MapFailed (ErrPortAlreadyAllocated ''0.0.0.0:49153''))"
  proof -
    from AllocatePort_retries [OF args [of 8080] rec proto [of 8080] ip [of 8080 1]]
    obtain st d' out where
      r: "AllocatePort (example_services 1) (example_job 8080) example_driver = Inr (st, d', out)"
      and a: "\<forall>x. HostPort (example_job 8080) \<noteq> 0
            \<and> attempt (example_services 1) (calls example_driver) ?c ?ip (HostPort (example_job 8080)) 0
                = Inl (ErrPortAlreadyAllocated x) \<longrightarrow>
          calls d' = calls example_driver @ [CallMap ?c ?ip (HostPort (example_job 8080))]
          \<and> st = StatusErr (MapFailed (ErrPortAlreadyAllocated x))
          \<and> ifaces_Get d' ''c1'' = Some ?nw"
      by blast
    from a [rule_format, of "''0.0.0.0:49153''"]
    have "calls d' = [CallMap ?c ?ip 8080]"
      and "st = StatusErr (MapFailed (ErrPortAlreadyAllocated ''0.0.0.0:49153''))"
      by (simp_all add: c0 hp example_attempt)
    with r show ?thesis by blast
  qed
  have 3: "\<exists>st d' out. AllocatePort (example_services 2) (example_job 0) example_driver = Inr (st, d', out)
      \<and> calls d' = replicate 3 (CallMap ?c ?ip 0)
      \<and> st = StatusOK
      \<and> ifaces_Get d' ''c1'' = Some \<lparr>IP = ''172.17.0.2'',
           PortMappings = [TCPAddr ''0.0.0.0'' 8080, TCPAddr ''0.0.0.0'' 49153]\<rparr>"
  proof -
    from AllocatePort_retries [OF args [of 0] rec proto [of 0] ip [of 0 2]]
    obtain st d' out where
      r: "AllocatePort (example_services 2) (example_job 0) example_driver = Inr (st, d', out)"
      and a: "\<forall>k host. HostPort (example_job 0) = 0 \<and> k < 10
            \<and> (\<forall>j<k. is_allocated_err (attempt (example_services 2) (calls example_driver) ?c ?ip 0 j))
            \<and> attempt (example_services 2) (calls example_driver) ?c ?ip 0 k = Inr host \<longrightarrow>
          calls d' = calls example_driver @ replicate (Suc k) (CallMap ?c ?ip 0)
          \<and> st = (if StdoutOk (example_job 0) then StatusOK else StatusErr StdoutWriteFailed)
          \<and> ifaces_Get d' ''c1'' = Some (?nw\<lparr>PortMappings := PortMappings ?nw @ [host]\<rparr>)"
      by blast
    from a [rule_format, of 2 "TCPAddr ''0.0.0.0'' 49153"]
    have "calls d' = replicate 3 (CallMap ?c ?ip 0)"
      and "st = StatusOK"
      and "ifaces_Get d' ''c1'' = Some \<lparr>IP = ''172.17.0.2'',
           PortMappings = [TCPAddr ''0.0.0.0'' 8080, TCPAddr ''0.0.0.0'' 49153]\<rparr>"
      by (simp_all add: c0 hp example_attempt is_allocated_err_def numeral_3_eq_3)
    with r show ?thesis by blast
  qed
  from 1 2 3 show ?thesis by blast
qed

section \<open>Properties of the creation of the bridge\<close>

lemma select_addr_find:
  assumes "list_all (\<lambda>a. ParseCIDR nl a \<noteq> None) cs"
  shows "select_addr nl ns cs =
     (case find (free_range nl ns) cs of None \<Rightarrow> Inr [] | Some a \<Rightarrow> Inr a)"
  using assms
  by (induction cs) (auto simp: free_range_def split: option.splits)

lemma addrs_nonempty: "[] \<notin> set addrs"
  by (simp add: addrs_def)

lemma find_in_set: "find P xs = Some a \<Longrightarrow> a \<in> set xs"
  by (induction xs) (auto split: if_splits)

text \<open>
  Claim C6. With no bridge IP configured, \<^verbatim>\<open>createBridge\<close> goes through the candidates
  in the order of the list, whose first entry is 172.17.42.1/16, and takes the first
  one for which neither the nameserver check nor the route check returns an error: it
  goes on to create the bridge with that address, and when the netlink calls succeed
  the bridge is up with that address. When no candidate passes both checks it returns
  the error that no free range was found and leaves the host as it was. The hypothesis
  on \<^verbatim>\<open>net.ParseCIDR\<close> says that the twelve literals of the list parse.
\<close>

theorem createBridge_selects_first_free:
  assumes "bridgeIP = []" and "list_all (\<lambda>a. ParseCIDR nl a \<noteq> None) addrs"
  shows "createBridge nl bridge bridgeIP h =
     (case find (free_range nl (host_nameservers h)) addrs of
        None \<Rightarrow> (Some (NoFreeRange bridge), h)
      | Some a \<Rightarrow> configure_bridge nl bridge a h)
     \<and> (\<forall>a. find (free_range nl (host_nameservers h)) addrs = Some a
           \<and> CreateBridge_err nl bridge = None \<and> InterfaceByName_err nl bridge = None
           \<and> NetworkLinkAddIp_err nl bridge a = None
           \<and> NetworkLinkUp_err nl bridge = None \<longrightarrow>
         createBridge nl bridge bridgeIP h =
           (None, h\<lparr>links := (links h)(bridge \<mapsto> \<lparr>link_addrs = [a], link_up = True\<rparr>)\<rparr>))
     \<and> hd addrs = ''172.17.42.1/16''"
proof -
  have ns: "(case resolvConf h of None \<Rightarrow> [] | Some ns \<Rightarrow> [] @ ns) = host_nameservers h"
    by (simp add: host_nameservers_def split: option.splits)
  have sel: "select_addr nl (host_nameservers h) addrs =
     (case find (free_range nl (host_nameservers h)) addrs of None \<Rightarrow> Inr [] | Some a \<Rightarrow> Inr a)"
    by (rule select_addr_find [OF assms(2)])
  have ne: "a \<noteq> []" if "find (free_range nl (host_nameservers h)) addrs = Some a" for a
    using find_in_set [OF that] addrs_nonempty by auto
  have 1: "createBridge nl bridge bridgeIP h =
     (case find (free_range nl (host_nameservers h)) addrs of
        None \<Rightarrow> (Some (NoFreeRange bridge), h)
      | Some a \<Rightarrow> configure_bridge nl bridge a h)"
    using assms(1) ne by (simp add: createBridge_def ns sel split: option.splits)
  have 2: "createBridge nl bridge bridgeIP h =
           (None, h\<lparr>links := (links h)(bridge \<mapsto> \<lparr>link_addrs = [a], link_up = True\<rparr>)\<rparr>)"
    if a: "find (free_range nl (host_nameservers h)) addrs = Some a"
      "CreateBridge_err nl bridge = None" "InterfaceByName_err nl bridge = None"
      "NetworkLinkAddIp_err nl bridge a = None"
      "NetworkLinkUp_err nl bridge = None" for a
  proof -
    have "a \<in> set addrs" using find_in_set [OF a(1)] .
    with assms(2) obtain p where "ParseCIDR nl a = Some p"
      by (auto simp: list_all_iff)
    with a 1 show ?thesis
      by (cases p) (simp add: configure_bridge_def Let_def)
  qed
  have 3: "hd addrs = ''172.17.42.1/16''" by (simp add: addrs_def)
  from 1 2 3 show ?thesis by blast
qed

lemma example_netlib_parses: "list_all (\<lambda>a. ParseCIDR (example_netlib b) a \<noteq> None) addrs"
  by (simp add: example_netlib_def addrs_def)

lemma example_find_free: "find (free_range (example_netlib False) (host_nameservers example_host)) addrs = Some ''10.1.42.1/16''"
  by (simp add: free_range_def example_netlib_def host_nameservers_def example_host_def addrs_def)

lemma example_find_busy: "find (free_range (example_netlib True) (host_nameservers example_host)) addrs = None"
  by (simp add: free_range_def example_netlib_def host_nameservers_def example_host_def addrs_def)

theorem createBridge_selects_first_free_witness:
  "list_all (\<lambda>a. ParseCIDR (example_netlib False) a \<noteq> None) addrs
   \<and> createBridge (example_netlib False) ''docker0'' [] example_host =
       (None, example_host\<lparr>links := [''docker0'' \<mapsto> \<lparr>link_addrs = [''10.1.42.1/16''], link_up = True\<rparr>]\<rparr>)
   \<and> list_all (\<lambda>a. ParseCIDR (example_netlib True) a \<noteq> None) addrs
   \<and> createBridge (example_netlib True) ''docker0'' [] example_host =
       (Some (NoFreeRange ''docker0''), example_host)"
proof -
  have e: "([]::string) = []" by simp
  have l: "links example_host = Map.empty" by (simp add: example_host_def)
  have f: "CreateBridge_err (example_netlib False) ''docker0'' = None"
    "InterfaceByName_err (example_netlib False) ''docker0'' = None"
    "NetworkLinkAddIp_err (example_netlib False) ''docker0'' ''10.1.42.1/16'' = None"
    "NetworkLinkUp_err (example_netlib False) ''docker0'' = None"
    by (simp_all add: example_netlib_def)
  from createBridge_selects_first_free [OF e example_netlib_parses [of False], of "''docker0''" example_host]
  have "\<forall>a. find (free_range (example_netlib False) (host_nameservers example_host)) addrs = Some a
           \<and> CreateBridge_err (example_netlib False) ''docker0'' = None
           \<and> InterfaceByName_err (example_netlib False) ''docker0'' = None
           \<and> NetworkLinkAddIp_err (example_netlib False) ''docker0'' a = None
           \<and> NetworkLinkUp_err (example_netlib False) ''docker0'' = None \<longrightarrow>
         createBridge (example_netlib False) ''docker0'' [] example_host =
           (None, example_host\<lparr>links := (links example_host)
              (''docker0'' \<mapsto> \<lparr>link_addrs = [a], link_up = True\<rparr>)\<rparr>)"
    by blast
  from this [rule_format, of "''10.1.42.1/16''"] example_find_free f
  have 1: "createBridge (example_netlib False) ''docker0'' [] example_host =
       (None, example_host\<lparr>links := [''docker0'' \<mapsto> \<lparr>link_addrs = [''10.1.42.1/16''], link_up = True\<rparr>]\<rparr>)"
    by (simp add: l)
  have 2: "createBridge (example_netlib True) ''docker0'' [] example_host =
       (Some (NoFreeRange ''docker0''), example_host)"
    using createBridge_selects_first_free [OF e example_netlib_parses [of True], of "''docker0''" example_host]
    by (simp add: example_find_busy)
  from 1 2 example_netlib_parses show ?thesis by blast
qed


section \<open>Properties of the iptables rules and of InitDriver\<close>

lemma list_insert_unless_exists:
  "insert_unless_exists list_iptables args e1 e2 rs
     = (None, rs\<lparr>rs_rules := ensure_rule args (rs_rules rs)\<rparr>)"
  by (simp add: insert_unless_exists_def list_iptables_def ensure_rule_def)

lemma list_delete:
  "snd (ipt_Raw list_iptables (''-D'' # args) rs) = rs\<lparr>rs_rules := remove1 args (rs_rules rs)\<rparr>"
  by (simp add: list_iptables_def remove1_idem)

lemma setupIPTables_list:
  "setupIPTables list_iptables bridge addr icc rs
     = (None, rs\<lparr>rs_rules := rules_after bridge addr icc (rs_rules rs)\<rparr>)"
  by (simp add: setupIPTables_def list_insert_unless_exists list_delete rules_after_def
      own_rule_def opposite_rule_def)

lemma rules_distinct:
  "own_rule b icc \<noteq> opposite_rule b icc"
  "outgoingArgs b \<noteq> opposite_rule b icc" "existingArgs b \<noteq> opposite_rule b icc"
  "natArgs b a \<noteq> opposite_rule b icc"
  "jump_rule n \<noteq> opposite_rule b icc"
  by (simp_all add: own_rule_def opposite_rule_def acceptArgs_def dropArgs_def
      outgoingArgs_def existingArgs_def natArgs_def jump_rule_def)

lemma ensure_rule_set: "set (ensure_rule r rs) = insert r (set rs)"
  by (auto simp: ensure_rule_def)

lemma ensure_rule_present: "r \<in> set rs \<Longrightarrow> ensure_rule r rs = rs"
  by (simp add: ensure_rule_def)

lemma in_remove1_other: "x \<noteq> y \<Longrightarrow> x \<in> set (remove1 y xs) \<longleftrightarrow> x \<in> set xs"
  by (induction xs) auto

lemma in_set_count_list: "x \<in> set xs \<longleftrightarrow> Suc 0 \<le> count_list xs x"
  using count_list_0_iff [of xs x] by (cases "count_list xs x") auto

lemma in_remove1_self: "x \<in> set (remove1 x xs) \<longleftrightarrow> 2 \<le> count_list xs x"
  by (induction xs) (auto simp: in_set_count_list)

lemma rules_after_members:
  "natArgs b a \<in> set (rules_after b a icc rs)"
  "own_rule b icc \<in> set (rules_after b a icc rs)"
  "outgoingArgs b \<in> set (rules_after b a icc rs)"
  "existingArgs b \<in> set (rules_after b a icc rs)"
  using rules_distinct
  by (simp_all add: rules_after_def ensure_rule_set in_remove1_other)

lemma count_ensure_other: "r \<noteq> x \<Longrightarrow> count_list (ensure_rule r rs) x = count_list rs x"
  by (simp add: ensure_rule_def)

lemma rules_after_opposite:
  "opposite_rule b icc \<in> set (rules_after b a icc rs) \<longleftrightarrow> 2 \<le> count_list rs (opposite_rule b icc)"
proof -
  let ?opp = "opposite_rule b icc"
  have "?opp \<in> set (rules_after b a icc rs)
        \<longleftrightarrow> ?opp \<in> set (remove1 ?opp (ensure_rule (natArgs b a) rs))"
    using rules_distinct(1-4) [symmetric]
    by (simp add: rules_after_def ensure_rule_set)
  also have "\<dots> \<longleftrightarrow> 2 \<le> count_list (ensure_rule (natArgs b a) rs) ?opp"
    by (rule in_remove1_self)
  also have "\<dots> \<longleftrightarrow> 2 \<le> count_list rs ?opp"
    by (simp add: count_ensure_other rules_distinct)
  finally show ?thesis .
qed

lemma rules_after_twice:
  "rules_after b a icc (rules_after b a icc rs) = remove1 (opposite_rule b icc) (rules_after b a icc rs)"
proof -
  let ?r1 = "rules_after b a icc rs"
  let ?r' = "remove1 (opposite_rule b icc) ?r1"
  have m: "own_rule b icc \<in> set ?r'" "outgoingArgs b \<in> set ?r'" "existingArgs b \<in> set ?r'"
    using rules_distinct rules_after_members
    by (simp_all add: in_remove1_other)
  have "rules_after b a icc ?r1 =
     ensure_rule (existingArgs b) (ensure_rule (outgoingArgs b) (ensure_rule (own_rule b icc) ?r'))"
    by (simp add: rules_after_def [of b a icc ?r1] ensure_rule_present rules_after_members)
  also have "\<dots> = ?r'"
    using m by (simp add: ensure_rule_present)
  finally show ?thesis .
qed

lemma not_of_chain:
  "\<not> of_chain ''DOCKER'' (natArgs b a)" "\<not> of_chain ''DOCKER'' (own_rule b icc)"
  "\<not> of_chain ''DOCKER'' (opposite_rule b icc)"
  "\<not> of_chain ''DOCKER'' (outgoingArgs b)" "\<not> of_chain ''DOCKER'' (existingArgs b)"
  "of_chain n (jump_rule n)"
  by (simp_all add: of_chain_def in_chain_def jumps_to_def natArgs_def own_rule_def
      opposite_rule_def acceptArgs_def dropArgs_def outgoingArgs_def existingArgs_def
      jump_rule_def)

lemma without_chain_set:
  "r \<in> set (without_chain n rs) \<longleftrightarrow> r \<in> set rs \<and> \<not> of_chain n r"
  by (auto simp: without_chain_def)

lemma without_chain_remove1:
  "without_chain n (remove1 x (without_chain n rs)) = remove1 x (without_chain n rs)"
  unfolding without_chain_def
  by (rule filter_True) (auto dest: notin_set_remove1 [rotated] simp: )


lemma ruleset_after_twice:
  "ruleset_after job a (ruleset_after job a rs) =
     (if job_EnableIptables job
      then (ruleset_after job a rs)\<lparr>rs_rules :=
             remove1 (opposite_rule (job_bridge job) (job_InterContainerCommunication job))
               (rs_rules (ruleset_after job a rs))\<rparr>
      else ruleset_after job a rs)"
proof (cases "job_EnableIptables job")
  case False
  then show ?thesis by (simp add: ruleset_after_def without_chain_def)
next
  case True
  let ?b = "job_bridge job" and ?icc = "job_InterContainerCommunication job"
  let ?opp = "opposite_rule ?b ?icc"
  let ?J = "jump_rule ''DOCKER''"
  let ?F = "without_chain ''DOCKER'' (rules_after ?b a ?icc (rs_rules rs))"
  have mem: "natArgs ?b a \<in> set ?F" "own_rule ?b ?icc \<in> set ?F"
    "outgoingArgs ?b \<in> set ?F" "existingArgs ?b \<in> set ?F"
    by (simp_all add: without_chain_set rules_after_members not_of_chain)
  have mem': "own_rule ?b ?icc \<in> set (remove1 ?opp ?F)"
    "outgoingArgs ?b \<in> set (remove1 ?opp ?F)" "existingArgs ?b \<in> set (remove1 ?opp ?F)"
    using mem rules_distinct by (simp_all add: in_remove1_other)
  have "rules_after ?b a ?icc (?J # ?F) =
      ensure_rule (existingArgs ?b) (ensure_rule (outgoingArgs ?b)
        (ensure_rule (own_rule ?b ?icc) (remove1 ?opp (?J # ?F))))"
    using mem by (simp add: rules_after_def [of ?b a ?icc "?J # ?F"] ensure_rule_present)
  also have "remove1 ?opp (?J # ?F) = ?J # remove1 ?opp ?F"
    using rules_distinct(5) [of "''DOCKER''" ?b ?icc] by simp
  also have "ensure_rule (existingArgs ?b) (ensure_rule (outgoingArgs ?b)
        (ensure_rule (own_rule ?b ?icc) (?J # remove1 ?opp ?F))) = ?J # remove1 ?opp ?F"
    using mem' by (simp add: ensure_rule_present)
  finally have ra: "rules_after ?b a ?icc (?J # ?F) = ?J # remove1 ?opp ?F" .
  have wc: "without_chain ''DOCKER'' (?J # remove1 ?opp ?F) = remove1 ?opp ?F"
    using without_chain_remove1 [of "''DOCKER''" ?opp "rules_after ?b a ?icc (rs_rules rs)"]
    by (simp add: without_chain_def not_of_chain)
  show ?thesis
    using True rules_distinct(5) [of "''DOCKER''" ?b ?icc]
    by (simp add: ruleset_after_def ra wc)
qed

lemma ruleset_after_stable:
  assumes "count_list (rs_rules rs)
             (opposite_rule (job_bridge job) (job_InterContainerCommunication job)) \<le> 1
           \<or> \<not> job_EnableIptables job"
  shows "ruleset_after job a (ruleset_after job a rs) = ruleset_after job a rs"
proof (cases "job_EnableIptables job")
  case False
  then show ?thesis by (simp add: ruleset_after_twice)
next
  case True
  let ?opp = "opposite_rule (job_bridge job) (job_InterContainerCommunication job)"
  from True assms have "\<not> 2 \<le> count_list (rs_rules rs) ?opp" by simp
  then have "?opp \<notin> set (rs_rules (ruleset_after job a rs))"
    using True rules_distinct(5) [of "''DOCKER''" "job_bridge job" "job_InterContainerCommunication job"]
    by (auto simp add: ruleset_after_def without_chain_set rules_after_opposite)
  then show ?thesis by (simp add: ruleset_after_twice remove1_idem)
qed

lemma set_variables_fields:
  "bridgeIface (w_driver (set_variables env job w)) = job_bridge job"
  "w_rules (set_variables env job w) = w_rules w"
  "w_host (set_variables env job w) = w_host w"
  by (simp_all add: set_variables_def job_bridge_def Let_def)

lemma find_bridge_keeps:
  assumes "find_bridge env bip u w = (r, w')"
  shows "w_rules w' = w_rules w" and "w_driver w' = w_driver w"
    and "r = Inr addr \<Longrightarrow> GetIfaceAddr env (w_host w') (bridgeIface (w_driver w)) = Inr addr"
  using assms
  by (auto simp: find_bridge_def Let_def split: sum.splits if_splits prod.splits option.splits)

lemma createBridge_parses:
  "createBridge nl b bip h = (None, h') \<Longrightarrow> bip \<noteq> [] \<Longrightarrow> ParseCIDR nl bip \<noteq> None"
  by (auto simp: createBridge_def Let_def split: option.splits)

lemma find_bridge_parses:
  "find_bridge env bip u w = (Inr addr, w') \<Longrightarrow> bip \<noteq> [] \<Longrightarrow>
   ParseCIDR (ie_netlib env) bip \<noteq> None"
  by (auto simp: find_bridge_def Let_def dest: createBridge_parses
      split: sum.splits if_splits prod.splits option.splits)

lemma find_bridge_again:
  assumes "GetIfaceAddr env (w_host w) (bridgeIface (w_driver w)) = Inr addr"
    and "bip = [] \<or> ParseCIDR (ie_netlib env) bip \<noteq> None"
  shows "find_bridge env bip u w = (Inr addr, w)
     \<or> (\<exists>x y. find_bridge env bip u w = (Inl (BridgeIPMismatch x y), w))"
  using assms
  by (cases "bip = []") (auto simp: find_bridge_def Let_def split: option.splits)

lemma find_bridge_error:
  "find_bridge env bip u w = (Inl e, w') \<Longrightarrow> e \<noteq> RegisterError err"
  by (auto simp: find_bridge_def Let_def split: sum.splits if_splits prod.splits option.splits)

lemma list_chain_ops:
  "ipt_RemoveExistingChain list_iptables n rs =
     (None, rs\<lparr>rs_rules := without_chain n (rs_rules rs),
               rs_chains := removeAll n (rs_chains rs)\<rparr>)"
  "ipt_NewChain list_iptables n b rs =
     (if n \<in> set (rs_chains rs) then (Inl ''Chain already exists.'', rs)
      else (Inr \<lparr>chain_Name = n, chain_Bridge = b\<rparr>,
            rs\<lparr>rs_rules := jump_rule n # rs_rules rs, rs_chains := n # rs_chains rs\<rparr>))"
  by (simp_all add: list_iptables_def without_chain_def)

lemma configure_network_list:
  assumes "ie_iptables env = list_iptables" and "bridgeIface (w_driver w) = job_bridge job"
    and "configure_network env job addr w = (st, w')"
  shows "w_rules w' = ruleset_after job (snd addr) (w_rules w)"
    and "w_host w' = w_host w"
    and "st = InitOK \<or> (\<exists>err. st = InitErr (RegisterError err))"
  using assms(3) unfolding configure_network_def assms(1,2) Let_def setupIPTables_list list_chain_ops
  by (auto simp: ruleset_after_def split: if_splits option.splits prod.splits)




lemma example_init_fields:
  "ie_iptables example_init_env = list_iptables"
  "job_bridge (example_init_job icc) = ''docker0''"
  "job_EnableIptables (example_init_job icc)"
  "job_InterContainerCommunication (example_init_job icc) = icc"
  "w_rules (example_world rs) = \<lparr>rs_rules = rs, rs_chains = []\<rparr>"
  by (simp_all add: example_init_env_def example_init_job_def job_bridge_def
      DefaultNetworkBridge_def example_world_def)

lemma example_first_run:
  "InitDriver example_init_env (example_init_job icc) (example_world rs) =
     (InitOK,
      (example_world rs)\<lparr>
        w_driver := (w_driver (example_world rs))\<lparr>bridgeIface := ''docker0'',
                      bridgeNetwork := ''172.17.42.1/16''\<rparr>,
        w_rules := ruleset_after (example_init_job icc) ''172.17.42.1/16''
                     \<lparr>rs_rules = rs, rs_chains = []\<rparr>,
        w_files := [ip_forward_path \<mapsto> [CHR ''1'', CHR 0x0A]],
        w_chain := Some \<lparr>chain_Name = ''DOCKER'', chain_Bridge = ''docker0''\<rparr>,
        w_engine := \<lparr>eng_handlers = [''allocate_interface'', ''release_interface'',
                        ''allocate_port'', ''link''],
                      eng_globals = [''httpapi.bridgeIP'' \<mapsto> ''172.17.42.1'']\<rparr>\<rparr>)"
  by (simp add: InitDriver_def set_variables_def find_bridge_def configure_network_def
      example_init_env_def example_init_job_def example_world_def DefaultNetworkBridge_def
      setupIPTables_list list_chain_ops ruleset_after_def job_bridge_def Let_def)

lemma example_second_run:
  "fst (InitDriver example_init_env (example_init_job icc)
         (snd (InitDriver example_init_env (example_init_job icc) (example_world rs))))
     = InitErr (RegisterError ''handler already registered: allocate_interface'')"
  by (simp add: example_first_run)
     (simp add: InitDriver_def set_variables_def find_bridge_def configure_network_def
      example_init_env_def example_init_job_def example_world_def DefaultNetworkBridge_def
      setupIPTables_list list_chain_ops Let_def)


lemma example_rules:
  "opposite_rule ''docker0'' True = dropArgs ''docker0''"
  "rs_rules (ruleset_after (example_init_job True) ''172.17.42.1/16''
       \<lparr>rs_rules = [dropArgs ''docker0''], rs_chains = []\<rparr>) =
     [jump_rule ''DOCKER'', existingArgs ''docker0'', outgoingArgs ''docker0'',
      acceptArgs ''docker0'', natArgs ''docker0'' ''172.17.42.1/16'']"
  "rs_rules (ruleset_after (example_init_job True) ''172.17.42.1/16''
       \<lparr>rs_rules = [dropArgs ''docker0'', dropArgs ''docker0''], rs_chains = []\<rparr>) =
     [jump_rule ''DOCKER'', existingArgs ''docker0'', outgoingArgs ''docker0'',
      acceptArgs ''docker0'', natArgs ''docker0'' ''172.17.42.1/16'', dropArgs ''docker0'']"
  "rs_rules (ruleset_after (example_init_job True) ''172.17.42.1/16''
     (ruleset_after (example_init_job True) ''172.17.42.1/16''
       \<lparr>rs_rules = [dropArgs ''docker0'', dropArgs ''docker0''], rs_chains = []\<rparr>)) =
     [jump_rule ''DOCKER'', existingArgs ''docker0'', outgoingArgs ''docker0'',
      acceptArgs ''docker0'', natArgs ''docker0'' ''172.17.42.1/16'']"
  by (simp_all add: ruleset_after_def example_init_fields rules_after_def ensure_rule_def
      jump_rule_def
      own_rule_def opposite_rule_def acceptArgs_def dropArgs_def outgoingArgs_def
      existingArgs_def natArgs_def without_chain_def of_chain_def in_chain_def jumps_to_def)



text \<open>
  A first run that fails before the iptables rules says nothing of the second: when
  the bridge is created but cannot be brought up, the first run returns the error and
  leaves the ruleset as it was, and the second run finds the bridge and installs the
  rules.
\<close>

lemma InitDriver_after_failed_run:
  "fst (InitDriver example_init_env_down (example_init_job True) example_world_no_bridge)
     = InitErr (CreateBridgeError (UnableToStartBridge ''operation not permitted''))
   \<and> rs_rules (w_rules (snd (InitDriver example_init_env_down (example_init_job True)
         example_world_no_bridge))) = []
   \<and> rs_rules (w_rules (snd (InitDriver example_init_env_down (example_init_job True)
         (snd (InitDriver example_init_env_down (example_init_job True)
            example_world_no_bridge))))) =
      [jump_rule ''DOCKER'', existingArgs ''docker0'', outgoingArgs ''docker0'',
       acceptArgs ''docker0'', natArgs ''docker0'' ''172.17.42.1/16'']"
  by code_simp

section \<open>Properties of the construction of the daemon\<close>

text \<open>
  Claim C9. \<^verbatim>\<open>NewDaemon\<close> returns the error of the mutually exclusive options when both
  a bridge interface (\<^verbatim>\<open>-b\<close>) and a bridge IP (\<^verbatim>\<open>--bip\<close>) are set, and an error when
  both iptables and inter-container communication are disabled (the first error when
  both conditions hold, the error about \<^verbatim>\<open>--icc\<close> otherwise). In both cases the result
  is an error and no daemon: the rest of the construction is not run.
\<close>

theorem NewDaemon_rejects_incompatible_options:
  "(BridgeIface config \<noteq> [] \<and> BridgeIP config \<noteq> [] \<longrightarrow>
      fst (NewDaemon route_mtu boot config) = Inl MutuallyExclusiveBridgeOptions)
   \<and> (\<not> EnableIptables config \<and> \<not> InterContainerCommunication config \<longrightarrow>
      fst (NewDaemon route_mtu boot config) =
        (if BridgeIface config \<noteq> [] \<and> BridgeIP config \<noteq> []
         then Inl MutuallyExclusiveBridgeOptions else Inl IccRequiresIptables))"
  by (simp add: NewDaemon_def NewDaemonFromDirectory_def Let_def)

theorem NewDaemon_rejects_incompatible_options_witness:
  "BridgeIface (default_config\<lparr>BridgeIface := ''br0'', BridgeIP := ''10.9.0.1/24''\<rparr>) \<noteq> []
   \<and> BridgeIP (default_config\<lparr>BridgeIface := ''br0'', BridgeIP := ''10.9.0.1/24''\<rparr>) \<noteq> []
   \<and> fst (NewDaemon None (\<lambda>c. (Inr (), c))
        (default_config\<lparr>BridgeIface := ''br0'', BridgeIP := ''10.9.0.1/24''\<rparr>))
       = Inl MutuallyExclusiveBridgeOptions
   \<and> \<not> EnableIptables (default_config\<lparr>EnableIptables := False, InterContainerCommunication := False\<rparr>)
   \<and> \<not> InterContainerCommunication
         (default_config\<lparr>EnableIptables := False, InterContainerCommunication := False\<rparr>)
   \<and> fst (NewDaemon None (\<lambda>c. (Inr (), c))
        (default_config\<lparr>EnableIptables := False, InterContainerCommunication := False\<rparr>))
       = Inl IccRequiresIptables"
  using NewDaemon_rejects_incompatible_options
          [of "default_config\<lparr>BridgeIface := ''br0'', BridgeIP := ''10.9.0.1/24''\<rparr>"
              None "\<lambda>c. (Inr (), c)"]
        NewDaemon_rejects_incompatible_options
          [of "default_config\<lparr>EnableIptables := False, InterContainerCommunication := False\<rparr>"
              None "\<lambda>c. (Inr (), c)"]
  by (simp add: default_config_def)

section \<open>Properties of the generation of names\<close>

lemma try_names_accept:
  assumes "\<forall>j<k. graph_Set env (containerGraph dm) (full_name (GetRandomName env (i + j))) cid
              = Inl NonUniqueName"
    and "graph_Set env (containerGraph dm) (full_name (GetRandomName env (i + k))) cid = Inr g"
    and "\<forall>j\<le>k. GetRandomName env (i + j) \<noteq> []"
    and "k < n"
  shows "try_names env cid i n dm =
     Inr (Some (Inr (full_name (GetRandomName env (i + k))), dm\<lparr>containerGraph := g\<rparr>))"
  using assms
proof (induction k arbitrary: i n)
  case 0
  then obtain m where "n = Suc m" by (cases n) auto
  with 0 show ?case by (simp add: Let_def)
next
  case (Suc k)
  then obtain m where m: "n = Suc m" "k < m" by (cases n) auto
  have a: "\<forall>j<k. graph_Set env (containerGraph dm) (full_name (GetRandomName env (Suc i + j))) cid
              = Inl NonUniqueName"
    using Suc.prems(1) by (metis Suc_less_eq add_Suc_shift)
  have b: "graph_Set env (containerGraph dm) (full_name (GetRandomName env (Suc i + k))) cid = Inr g"
    using Suc.prems(2) by simp
  have c: "\<forall>j\<le>k. GetRandomName env (Suc i + j) \<noteq> []"
    using Suc.prems(3) by (metis Suc_le_mono add_Suc_shift)
  have first: "graph_Set env (containerGraph dm) (full_name (GetRandomName env i)) cid = Inl NonUniqueName"
    "GetRandomName env i \<noteq> []"
    using Suc.prems(1) [rule_format, of 0] Suc.prems(3) [rule_format, of 0] by simp_all
  have "try_names env cid i n dm = try_names env cid (Suc i) m dm"
    using m first by (simp add: Let_def)
  with Suc.IH [OF a b c m(2)] show ?case by simp
qed

lemma try_names_exhausted:
  assumes "\<forall>j<n. graph_Set env (containerGraph dm) (full_name (GetRandomName env (i + j))) cid
              = Inl NonUniqueName"
    and "\<forall>j<n. GetRandomName env (i + j) \<noteq> []"
  shows "try_names env cid i n dm = Inr None"
  using assms
proof (induction n arbitrary: i)
  case 0
  then show ?case by simp
next
  case (Suc n)
  have a: "\<forall>j<n. graph_Set env (containerGraph dm) (full_name (GetRandomName env (Suc i + j))) cid
              = Inl NonUniqueName"
    using Suc.prems(1) by (metis Suc_less_eq add_Suc_shift)
  have c: "\<forall>j<n. GetRandomName env (Suc i + j) \<noteq> []"
    using Suc.prems(2) by (metis Suc_less_eq add_Suc_shift)
  have first: "graph_Set env (containerGraph dm) (full_name (GetRandomName env i)) cid = Inl NonUniqueName"
    "GetRandomName env i \<noteq> []"
    using Suc.prems(1) [rule_format, of 0] Suc.prems(2) [rule_format, of 0] by simp_all
  have "try_names env cid i (Suc n) dm = try_names env cid (Suc i) n dm"
    using first by (simp add: Let_def)
  with Suc.IH [OF a c] show ?case by simp
qed

text \<open>
  Claim C8. The names drawn are not empty. If the name graph refuses the first \<open>k < 6\<close>
  names as not unique and accepts the next one, \<^verbatim>\<open>generateNewName\<close> registers that
  name for the container and returns it (with the leading slash). If it refuses all six
  as not unique, the name is the slash followed by the first 12 characters of the
  container id: it is registered and returned, unless the graph refuses that one too,
  which is returned as the error.
\<close>

theorem generateNewName_six_attempts:
  assumes "\<forall>j<6. GetRandomName env j \<noteq> []"
  shows "(\<forall>k g. k < 6
            \<and> (\<forall>j<k. graph_Set env (containerGraph dm) (full_name (GetRandomName env j)) cid
                      = Inl NonUniqueName)
            \<and> graph_Set env (containerGraph dm) (full_name (GetRandomName env k)) cid = Inr g \<longrightarrow>
          generateNewName env cid dm =
            Inr (Inr (full_name (GetRandomName env k)), dm\<lparr>containerGraph := g\<rparr>))
     \<and> ((\<forall>j<6. graph_Set env (containerGraph dm) (full_name (GetRandomName env j)) cid
                  = Inl NonUniqueName) \<longrightarrow>
          generateNewName env cid dm =
            (case graph_Set env (containerGraph dm) (''/'' @ take 12 cid) cid of
               Inl err \<Rightarrow> Inr (Inl (GraphError err), dm)
             | Inr g \<Rightarrow> Inr (Inr (''/'' @ take 12 cid), dm\<lparr>containerGraph := g\<rparr>)))"
proof -
  have 1: "generateNewName env cid dm =
            Inr (Inr (full_name (GetRandomName env k)), dm\<lparr>containerGraph := g\<rparr>)"
    if a: "k < 6"
      "\<forall>j<k. graph_Set env (containerGraph dm) (full_name (GetRandomName env j)) cid
                      = Inl NonUniqueName"
      "graph_Set env (containerGraph dm) (full_name (GetRandomName env k)) cid = Inr g" for k g
  proof -
    have ne: "\<forall>j\<le>k. GetRandomName env (0 + j) \<noteq> []"
      using assms a(1) by auto
    from try_names_accept [of k env dm 0 cid g 6] a ne
    have "try_names env cid 0 6 dm =
       Inr (Some (Inr (full_name (GetRandomName env k)), dm\<lparr>containerGraph := g\<rparr>))"
      by simp
    then show ?thesis by (simp add: generateNewName_def)
  qed
  have 2: "generateNewName env cid dm =
            (case graph_Set env (containerGraph dm) (''/'' @ take 12 cid) cid of
               Inl err \<Rightarrow> Inr (Inl (GraphError err), dm)
             | Inr g \<Rightarrow> Inr (Inr (''/'' @ take 12 cid), dm\<lparr>containerGraph := g\<rparr>))"
    if a: "\<forall>j<6. graph_Set env (containerGraph dm) (full_name (GetRandomName env j)) cid
                  = Inl NonUniqueName"
  proof -
    from try_names_exhausted [of 6 env dm 0 cid] a assms
    have "try_names env cid 0 6 dm = Inr None" by simp
    then show ?thesis
      by (simp add: generateNewName_def TruncateID_def Let_def split: sum.splits)
  qed
  from 1 2 show ?thesis by blast
qed

lemma less_6_cases: "j < 6 \<Longrightarrow> j = 0 \<or> j = 1 \<or> j = 2 \<or> j = 3 \<or> j = 4 \<or> j = (5::nat)"
  by arith

lemma example_names_nonempty: "\<forall>j<6. GetRandomName (example_env a b) j \<noteq> []"
  by (simp add: example_env_def)

lemma example_full_name:
  "full_name (GetRandomName (example_env a b) j) = ''/happy_turing'' @ replicate j (CHR ''1'')"
  by (simp add: example_env_def full_name_def)

lemma example_graph_Set:
  "graph_Set (example_env a b) g name cid =
     (case g name of Some other \<Rightarrow> Inl NonUniqueName | None \<Rightarrow> Inr (g(name \<mapsto> cid)))"
  by (simp add: example_env_def)

theorem generateNewName_six_attempts_witness:
  "GetRandomName (example_env True True) 2 = ''happy_turing11''
   \<and> generateNewName (example_env True True) ''0123456789abcdef''
        (example_daemon\<lparr>containerGraph := taken_two\<rparr>) =
       Inr (Inr ''/happy_turing11'',
            example_daemon\<lparr>containerGraph := taken_two(''/happy_turing11'' \<mapsto> ''0123456789abcdef'')\<rparr>)
   \<and> generateNewName (example_env True True) ''0123456789abcdef''
        (example_daemon\<lparr>containerGraph := taken_six\<rparr>) =
       Inr (Inr ''/0123456789ab'',
            example_daemon\<lparr>containerGraph := taken_six(''/0123456789ab'' \<mapsto> ''0123456789abcdef'')\<rparr>)"
proof -
  let ?env = "example_env True True"
  let ?cid = "''0123456789abcdef''"
  let ?d2 = "example_daemon\<lparr>containerGraph := taken_two\<rparr>"
  let ?d6 = "example_daemon\<lparr>containerGraph := taken_six\<rparr>"
  note thm2 = generateNewName_six_attempts [OF example_names_nonempty, of True True ?d2 ?cid]
  note thm6 = generateNewName_six_attempts [OF example_names_nonempty, of True True ?d6 ?cid]
  have two: "\<forall>j<2. graph_Set ?env (containerGraph ?d2) (full_name (GetRandomName ?env j)) ?cid
               = Inl NonUniqueName"
  proof (intro allI impI)
    fix j :: nat assume "j < 2"
    then have "j = 0 \<or> j = 1" by arith
    then show "graph_Set ?env (containerGraph ?d2) (full_name (GetRandomName ?env j)) ?cid
               = Inl NonUniqueName"
      by (auto simp: example_full_name example_graph_Set taken_two_def)
  qed
  have third: "graph_Set ?env (containerGraph ?d2) (full_name (GetRandomName ?env 2)) ?cid
      = Inr (taken_two(''/happy_turing11'' \<mapsto> ?cid))"
    by (simp add: example_full_name example_graph_Set taken_two_def numeral_2_eq_2)
  from thm2 have "\<forall>k g. k < 6
            \<and> (\<forall>j<k. graph_Set ?env (containerGraph ?d2) (full_name (GetRandomName ?env j)) ?cid
                      = Inl NonUniqueName)
            \<and> graph_Set ?env (containerGraph ?d2) (full_name (GetRandomName ?env k)) ?cid = Inr g \<longrightarrow>
          generateNewName ?env ?cid ?d2 =
            Inr (Inr (full_name (GetRandomName ?env k)), ?d2\<lparr>containerGraph := g\<rparr>)"
    by blast
  from this [rule_format, of 2 "taken_two(''/happy_turing11'' \<mapsto> ?cid)"] two third
  have r2: "generateNewName ?env ?cid ?d2 =
       Inr (Inr ''/happy_turing11'', example_daemon\<lparr>containerGraph := taken_two(''/happy_turing11'' \<mapsto> ?cid)\<rparr>)"
    by (simp add: example_full_name numeral_2_eq_2)
  have six: "\<forall>j<6. graph_Set ?env (containerGraph ?d6) (full_name (GetRandomName ?env j)) ?cid
               = Inl NonUniqueName"
  proof (intro allI impI)
    fix j :: nat assume "j < 6"
    from less_6_cases [OF this]
    show "graph_Set ?env (containerGraph ?d6) (full_name (GetRandomName ?env j)) ?cid
               = Inl NonUniqueName"
      by (elim disjE) (simp_all add: example_full_name example_graph_Set taken_six_def
          numeral_2_eq_2 numeral_3_eq_3 eval_nat_numeral)
  qed
  from thm6 six have "generateNewName ?env ?cid ?d6 =
            (case graph_Set ?env (containerGraph ?d6) (''/'' @ take 12 ?cid) ?cid of
               Inl err \<Rightarrow> Inr (Inl (GraphError err), ?d6)
             | Inr g \<Rightarrow> Inr (Inr (''/'' @ take 12 ?cid), ?d6\<lparr>containerGraph := g\<rparr>))"
    by blast
  then have r6: "generateNewName ?env ?cid ?d6 =
       Inr (Inr ''/0123456789ab'', example_daemon\<lparr>containerGraph := taken_six(''/0123456789ab'' \<mapsto> ?cid)\<rparr>)"
    by (simp add: example_graph_Set taken_six_def)
  have "GetRandomName ?env 2 = ''happy_turing11''"
    by (simp add: example_env_def numeral_2_eq_2)
  with r2 r6 show ?thesis by blast
qed

section \<open>Properties of the registration of containers\<close>

lemma ToDisk_fields:
  "exec_calls (snd (ToDisk env c dm)) = exec_calls dm"
  "containers (snd (ToDisk env c dm)) = containers dm"
  "idIndex (snd (ToDisk env c dm)) = idIndex dm"
  by (simp_all add: ToDisk_def split: option.splits)

lemma try_names_exec_calls:
  "try_names env cid i n dm = Inr (Some (r, dm1)) \<Longrightarrow> exec_calls dm1 = exec_calls dm"
  by (induction n arbitrary: i) (auto simp: Let_def split: if_splits sum.splits)

lemma generateNewName_exec_calls:
  "generateNewName env cid dm = Inr (r, dm1) \<Longrightarrow> exec_calls dm1 = exec_calls dm"
  by (auto simp: generateNewName_def Let_def dest: try_names_exec_calls
      split: sum.splits option.splits)

lemma ensureName_keeps:
  assumes "ensureName env c dm = Inr (r, c1, dm1)"
  shows "State c1 = State c \<and> ID c1 = ID c \<and> has_daemon c1 = has_daemon c
     \<and> ContainerExecDriver c1 = ContainerExecDriver c
     \<and> ContainerConfig c1 = ContainerConfig c \<and> exec_calls dm1 = exec_calls dm"
  using assms
  by (auto simp: ensureName_def Let_def ToDisk_fields dest: generateNewName_exec_calls
      split: if_splits sum.splits prod.splits)


lemma SetStopped_value:
  "SetStopped exitCode st = \<lparr>Running = False, Pid = 0, ExitCode = exitCode\<rparr>"
  by (cases st) (simp add: SetStopped_def)

lemma kill_old_running_result:
  assumes "kill_old_running env c dm = (r, c', dm')"
  shows "exec_calls dm' = exec_calls dm @
           [if ContainerExecDriver c = [] \<or> Contains (ContainerExecDriver c) ''lxc''
            then KillLxc (ID c) 9 else Terminate (ID c) (Pid (State c)),
            Unmount (ID c)]
      \<and> containers dm' = (containers dm)(ID c \<mapsto> c')
      \<and> idIndex dm' = idIndex dm \<and> containerGraph dm' = containerGraph dm
      \<and> (if Info_IsRunning env (exec_calls dm') (ID c)
          then r = None \<and> c' = c\<lparr>State := SetStopped 0 (State c)\<rparr>
               \<and> disk dm' = (if ToDisk_err env c' = None then (disk dm)(ID c \<mapsto> c') else disk dm)
          else c' = c\<lparr>State := SetStopped (- 127) (SetStopped 0 (State c))\<rparr>
               \<and> (case ToDisk_err env c' of
                     None \<Rightarrow> r = None \<and> disk dm' = (disk dm)(ID c \<mapsto> c')
                   | Some err \<Rightarrow> r = Some (ToDiskError err)
                       \<and> disk dm' =
                           (if ToDisk_err env (c\<lparr>State := SetStopped 0 (State c)\<rparr>) = None
                            then (disk dm)(ID c \<mapsto> c\<lparr>State := SetStopped 0 (State c)\<rparr>)
                            else disk dm)))"
  using assms
  by (auto simp: kill_old_running_def Let_def ToDisk_def store_def
      split: if_splits option.splits prod.splits)




lemma example_register_hyps:
  "\<not> has_daemon example_container"
  "\<not> Exists (example_env a b) example_daemon (ID example_container)"
  "validateID (example_env a b) (ID example_container) = None"
  "ensureName (example_env a b) example_container example_daemon
     = Inr (None, example_container, example_daemon)"
  "IsRunning (State example_container)"
  by (simp_all add: example_env_def example_container_def example_daemon_def Exists_def
      daemon_Get_def GetByName_def GetFullContainerName_def ensureName_def IsRunning_def)

lemma example_nil_config_hyps:
  "\<not> has_daemon (example_container\<lparr>ContainerConfig := None\<rparr>)"
  "\<not> Exists (example_env a b) example_daemon (ID (example_container\<lparr>ContainerConfig := None\<rparr>))"
  "validateID (example_env a b) (ID (example_container\<lparr>ContainerConfig := None\<rparr>)) = None"
  "ensureName (example_env a b) (example_container\<lparr>ContainerConfig := None\<rparr>) example_daemon
     = Inr (None, example_container\<lparr>ContainerConfig := None\<rparr>, example_daemon)"
  "IsRunning (State (example_container\<lparr>ContainerConfig := None\<rparr>))"
  by (simp_all add: example_env_def example_container_def example_daemon_def Exists_def
      daemon_Get_def GetByName_def GetFullContainerName_def ensureName_def IsRunning_def)

lemma example_container_fields:
  "ID example_container = ''4f2a''"
  "ContainerConfig example_container = Some \<lparr>OpenStdin = False\<rparr>"
  "Pid (State example_container) = 4242"
  "ContainerExecDriver example_container = ''native-0.2''"
  "\<not> Contains ''native-0.2'' ''lxc''"
  "exec_calls example_daemon = []" "disk example_daemon = Map.empty"
  by (simp_all add: example_container_def example_daemon_def)

lemma example_env_fields:
  "Info_IsRunning (example_env a b) cs cid = a"
  "ToDisk_err (example_env a b) c = (if b then None else Some ''no space left on device'')"
  by (simp_all add: example_env_def)



end
